theory Spec2Isabelle
  imports Main "HOL-Library.Word" "HOL-Library.Char_ord" "HOL-Library.List_Lexorder"
begin

section \<open>The error vocabulary (server/storage/storage.go)\<close>

text \<open>
  The seven sentinel errors of the Storage contract, the \<open>notSupportedError\<close> of the
  BoltDB storage, and one constructor each for the errors the two libraries hand back:
  \<open>gobError\<close> for a failing \<open>Encode\<close> or \<open>Decode\<close> of encoding/gob, \<open>boltError\<close> for
  a \<open>Put\<close> the engine refuses. The library errors are values of their own, different from
  every sentinel, as in Go.
\<close>

datatype error =
    KeyNotExistsError
  | KeyAlreadyExistsError
  | ListEmptyError
  | FieldNotExistError
  | KeyStringTypeError
  | KeyHashTypeError
  | KeyListTypeError
  | notSupportedError
  | gobError
  | boltError

section \<open>Time (package time, as the program uses it)\<close>

text \<open>
  A \<open>time.Time\<close> is the number of nanoseconds since the zero instant (January 1, year 1,
  00:00:00 UTC); the zero value of the type is that instant. A \<open>time.Duration\<close> is an
  int64 count of nanoseconds. \<open>time.Now()\<close> is an effect: every function that reads the
  clock takes the reading as an argument.
\<close>

type_synonym Time = int
type_synonym Duration = "64 word"

definition Second :: Duration where
  "Second = 1000000000"

definition IsZero :: "Time \<Rightarrow> bool" where
  "IsZero t = (t = 0)"

definition After :: "Time \<Rightarrow> Time \<Rightarrow> bool" where
  "After t u = (u < t)"

definition Add :: "Time \<Rightarrow> Duration \<Rightarrow> Time" where
  "Add t d = t + sint d"

section \<open>Item (server/storage, the file with NewItem)\<close>

type_synonym Hash = "string \<rightharpoonup> string"

text \<open>
  Modelled from the spec: the type \<open>Hash\<close> and its method \<open>GetValue\<close> are declared in a
  file of the repository that is not among the sources. The spec gives a hash as a mapping
  from field names to strings, and \<open>FieldNotExist\<close> as the error of reading a field that
  is not there.
\<close>

definition GetValue :: "Hash \<Rightarrow> string \<Rightarrow> error + string" where
  "GetValue hash field =
     (case hash field of None \<Rightarrow> Inl FieldNotExistError | Some v \<Rightarrow> Inr v)"

text \<open>
  \<open>Item.Value\<close> is an \<open>interface{}\<close>; the three casts of the source tell a string, a
  \<open>Hash\<close> and a list apart by a type assertion. The dynamic type is the constructor.
\<close>

datatype Value = StringValue string | HashValue Hash | ListValue "string list"

record Item =
  Value :: Value
  ExpireTime :: Time

text \<open>
  \<open>time.Duration(ttl) * time.Second\<close>: the conversion of the uint64 keeps the 64 bits,
  the product wraps around in int64, and \<open>Add\<close> reads the result as a signed count.
\<close>

definition getExpireTime :: "64 word \<Rightarrow> Time \<Rightarrow> Time" where
  "getExpireTime ttl now = (if 0 < ttl then Add now (ttl * Second) else 0)"

definition NewItem :: "Value \<Rightarrow> 64 word \<Rightarrow> Time \<Rightarrow> Item" where
  "NewItem v ttl now = \<lparr>Value = v, ExpireTime = getExpireTime ttl now\<rparr>"

definition CastString :: "Item \<Rightarrow> error + string" where
  "CastString i =
     (case Value i of StringValue s \<Rightarrow> Inr s | _ \<Rightarrow> Inl KeyStringTypeError)"

definition CastHash :: "Item \<Rightarrow> error + Hash" where
  "CastHash i =
     (case Value i of HashValue h \<Rightarrow> Inr h | _ \<Rightarrow> Inl KeyHashTypeError)"

definition CastList :: "Item \<Rightarrow> error + string list" where
  "CastList i =
     (case Value i of ListValue l \<Rightarrow> Inr l | _ \<Rightarrow> Inl KeyListTypeError)"

definition IsAlive :: "Item \<Rightarrow> Time \<Rightarrow> bool" where
  "IsAlive i now = (IsZero (ExpireTime i) \<or> After (ExpireTime i) now)"

definition SetTTL :: "Item \<Rightarrow> 64 word \<Rightarrow> Time \<Rightarrow> Item" where
  "SetTTL i ttl now = i\<lparr>ExpireTime := getExpireTime ttl now\<rparr>"

section \<open>The libraries under the BoltDB storage\<close>

text \<open>
  The storage never looks into the bytes of a record: it makes them with gob's \<open>Encode\<close>
  and reads them with gob's \<open>Decode\<close>. The type of records is therefore a parameter
  \<open>'b\<close>, and the two functions are parameters too, either of which may fail (\<open>None\<close>).
  \<open>PutFails\<close> says which writes the engine refuses (bolt's \<open>Put\<close> documents an error for
  a blank key, a key that is too large and a value that is too large).
\<close>

record 'b library =
  Encode :: "Item \<Rightarrow> 'b option"
  Decode :: "'b \<Rightarrow> Item option"
  PutFails :: "string \<Rightarrow> 'b \<Rightarrow> bool"

text \<open>
  The bucket \<open>default\<close>: the records in the order of their keys, which is the order in
  which a cursor visits them.
\<close>

type_synonym 'b bucket = "(string \<times> 'b) list"

fun insert_key :: "string \<Rightarrow> 'b \<Rightarrow> 'b bucket \<Rightarrow> 'b bucket" where
  "insert_key key data [] = [(key, data)]"
| "insert_key key data ((k, d) # rest) =
     (if key = k then (key, data) # rest
      else if key < k then (key, data) # (k, d) # rest
      else (k, d) # insert_key key data rest)"

definition bucket_Get :: "'b bucket \<Rightarrow> string \<Rightarrow> 'b option" where
  "bucket_Get bucket key = map_of bucket key"

definition bucket_Put ::
  "'b library \<Rightarrow> 'b bucket \<Rightarrow> string \<Rightarrow> 'b \<Rightarrow> error option \<times> 'b bucket" where
  "bucket_Put L bucket key data =
     (if PutFails L key data then (Some boltError, bucket)
      else (None, insert_key key data bucket))"

text \<open>
  \<open>bucket.Delete\<close> removes the record of the key if there is one. (Its documented errors,
  a read-only transaction and a key that names a nested bucket, do not arise in this
  program.) \<open>db.Update\<close> runs the function in a read-write transaction and rolls it back
  when the function returns an error; a commit that fails for lack of disk is not modelled.
  \<open>db.View\<close> runs a function that only reads: the functions below that use it take the
  bucket and return their result.
\<close>

definition bucket_Delete :: "'b bucket \<Rightarrow> string \<Rightarrow> 'b bucket" where
  "bucket_Delete bucket key = filter (\<lambda>r. fst r \<noteq> key) bucket"

definition db_Update ::
  "('b bucket \<Rightarrow> error option \<times> 'b bucket) \<Rightarrow> 'b bucket \<Rightarrow> error option \<times> 'b bucket" where
  "db_Update fn bucket =
     (case fn bucket of
        (None, bucket') \<Rightarrow> (None, bucket')
      | (Some err, bucket') \<Rightarrow> (Some err, bucket))"

section \<open>The BoltDB storage (server/storage/boltdb/storage.go)\<close>

definition getItem :: "'b library \<Rightarrow> 'b bucket \<Rightarrow> string \<Rightarrow> Time \<Rightarrow> error + Item" where
  "getItem L bucket key now =
     (case bucket_Get bucket key of
        None \<Rightarrow> Inl KeyNotExistsError
      | Some data \<Rightarrow>
          (case Decode L data of
             None \<Rightarrow> Inl gobError
           | Some item \<Rightarrow>
               if IsAlive item now then Inr item else Inl KeyNotExistsError))"

definition saveItem ::
  "'b library \<Rightarrow> 'b bucket \<Rightarrow> string \<Rightarrow> Item \<Rightarrow> error option \<times> 'b bucket" where
  "saveItem L bucket key item =
     (case Encode L item of
        None \<Rightarrow> (Some gobError, bucket)
      | Some data \<Rightarrow> bucket_Put L bucket key data)"

definition getHash :: "'b library \<Rightarrow> 'b bucket \<Rightarrow> string \<Rightarrow> Time \<Rightarrow> error + Hash" where
  "getHash L bucket key now =
     (case getItem L bucket key now of
        Inl err \<Rightarrow> Inl err
      | Inr item \<Rightarrow> CastHash item)"

text \<open>
  \<open>Keys\<close>: the function given to \<open>db.View\<close> appends to the result as it goes and
  returns at the first record that does not decode; \<open>Keys\<close> drops that error and sorts
  what was collected. \<open>now key\<close> is the clock reading of the liveness check of the
  record under \<open>key\<close>.
\<close>

fun Keys_scan :: "'b library \<Rightarrow> (string \<Rightarrow> Time) \<Rightarrow> 'b bucket \<Rightarrow> string list \<Rightarrow> string list" where
  "Keys_scan L now [] keys = keys"
| "Keys_scan L now ((key, data) # rest) keys =
     (case Decode L data of
        None \<Rightarrow> keys
      | Some item \<Rightarrow>
          Keys_scan L now rest (if IsAlive item (now key) then keys @ [key] else keys))"

definition Keys :: "'b library \<Rightarrow> (string \<Rightarrow> Time) \<Rightarrow> 'b bucket \<Rightarrow> string list" where
  "Keys L now bucket = sort (Keys_scan L now bucket [])"

text \<open>
  The operations that write run inside \<open>db.Update\<close>. \<open>now\<close> is the clock reading of the
  liveness check in \<open>getItem\<close>, \<open>now'\<close> the later reading of \<open>getExpireTime\<close>.
\<close>

definition Expire ::
  "'b library \<Rightarrow> string \<Rightarrow> 64 word \<Rightarrow> Time \<Rightarrow> Time \<Rightarrow> 'b bucket \<Rightarrow> error option \<times> 'b bucket" where
  "Expire L key ttl now now' =
     db_Update (\<lambda>bucket.
       case getItem L bucket key now of
         Inl err \<Rightarrow> (Some err, bucket)
       | Inr item \<Rightarrow> saveItem L bucket key (SetTTL item ttl now'))"

definition Get :: "'b library \<Rightarrow> string \<Rightarrow> Time \<Rightarrow> 'b bucket \<Rightarrow> error + string" where
  "Get L key now bucket =
     (case getItem L bucket key now of
        Inl err \<Rightarrow> Inl err
      | Inr item \<Rightarrow> CastString item)"

text \<open>
  \<open>Set\<close> and \<open>HashCreate\<close> drop the error of \<open>getItem\<close> and ask only whether it
  returned an item.
\<close>

definition Set ::
  "'b library \<Rightarrow> string \<Rightarrow> string \<Rightarrow> 64 word \<Rightarrow> Time \<Rightarrow> Time \<Rightarrow> 'b bucket
     \<Rightarrow> error option \<times> 'b bucket" where
  "Set L key v ttl now now' =
     db_Update (\<lambda>bucket.
       case getItem L bucket key now of
         Inr item \<Rightarrow> (Some KeyAlreadyExistsError, bucket)
       | Inl err \<Rightarrow> saveItem L bucket key (NewItem (StringValue v) ttl now'))"

definition Update ::
  "'b library \<Rightarrow> string \<Rightarrow> string \<Rightarrow> Time \<Rightarrow> 'b bucket \<Rightarrow> error option \<times> 'b bucket" where
  "Update L key v now =
     db_Update (\<lambda>bucket.
       case getItem L bucket key now of
         Inl err \<Rightarrow> (Some err, bucket)
       | Inr item \<Rightarrow> saveItem L bucket key (item\<lparr>Value := StringValue v\<rparr>))"

definition Delete ::
  "'b library \<Rightarrow> string \<Rightarrow> Time \<Rightarrow> 'b bucket \<Rightarrow> error option \<times> 'b bucket" where
  "Delete L key now =
     db_Update (\<lambda>bucket.
       case getItem L bucket key now of
         Inl err \<Rightarrow> (Some err, bucket)
       | Inr item \<Rightarrow> (None, bucket_Delete bucket key))"

definition HashCreate ::
  "'b library \<Rightarrow> string \<Rightarrow> 64 word \<Rightarrow> Time \<Rightarrow> Time \<Rightarrow> 'b bucket \<Rightarrow> error option \<times> 'b bucket" where
  "HashCreate L key ttl now now' =
     db_Update (\<lambda>bucket.
       case getItem L bucket key now of
         Inr item \<Rightarrow> (Some KeyAlreadyExistsError, bucket)
       | Inl err \<Rightarrow> saveItem L bucket key (NewItem (HashValue Map.empty) ttl now'))"

definition HashGet ::
  "'b library \<Rightarrow> string \<Rightarrow> string \<Rightarrow> Time \<Rightarrow> 'b bucket \<Rightarrow> error + string" where
  "HashGet L key field now bucket =
     (case getHash L bucket key now of
        Inl err \<Rightarrow> Inl err
      | Inr hash \<Rightarrow> GetValue hash field)"

definition HashGetAll :: "'b library \<Rightarrow> string \<Rightarrow> Time \<Rightarrow> 'b bucket \<Rightarrow> error + Hash" where
  "HashGetAll L key now bucket = getHash L bucket key now"

text \<open>
  A Go map is a reference: \<open>hash[field] = value\<close> and \<open>delete(hash, field)\<close> change the
  map that \<open>item.Value\<close> holds, so the item saved afterwards carries the changed map.
\<close>

definition HashSet ::
  "'b library \<Rightarrow> string \<Rightarrow> string \<Rightarrow> string \<Rightarrow> Time \<Rightarrow> Time \<Rightarrow> 'b bucket
     \<Rightarrow> error option \<times> 'b bucket" where
  "HashSet L key field v now now' =
     db_Update (\<lambda>bucket.
       let item = (case getItem L bucket key now of
                     Inl err \<Rightarrow> NewItem (HashValue Map.empty) 0 now'
                   | Inr item \<Rightarrow> item)
       in case CastHash item of
            Inl err \<Rightarrow> (Some err, bucket)
          | Inr hash \<Rightarrow> saveItem L bucket key (item\<lparr>Value := HashValue (hash(field \<mapsto> v))\<rparr>))"

definition HashDelete ::
  "'b library \<Rightarrow> string \<Rightarrow> string \<Rightarrow> Time \<Rightarrow> 'b bucket \<Rightarrow> error option \<times> 'b bucket" where
  "HashDelete L key field now =
     db_Update (\<lambda>bucket.
       case getItem L bucket key now of
         Inl err \<Rightarrow> (Some err, bucket)
       | Inr item \<Rightarrow>
           (case CastHash item of
              Inl err \<Rightarrow> (Some err, bucket)
            | Inr hash \<Rightarrow>
                (case GetValue hash field of
                   Inl err \<Rightarrow> (Some err, bucket)
                 | Inr old \<Rightarrow>
                     saveItem L bucket key (item\<lparr>Value := HashValue (hash(field := None))\<rparr>))))"

definition HashLen :: "'b library \<Rightarrow> string \<Rightarrow> Time \<Rightarrow> 'b bucket \<Rightarrow> error + nat" where
  "HashLen L key now bucket =
     (case getHash L bucket key now of
        Inl err \<Rightarrow> Inl err
      | Inr hash \<Rightarrow> Inr (card (dom hash)))"

definition HashKeys :: "'b library \<Rightarrow> string \<Rightarrow> Time \<Rightarrow> 'b bucket \<Rightarrow> error + string list" where
  "HashKeys L key now bucket =
     (case getHash L bucket key now of
        Inl err \<Rightarrow> Inl err
      | Inr hash \<Rightarrow> Inr (sorted_list_of_set (dom hash)))"

text \<open>The list operations do not touch the database.\<close>

definition ListCreate :: "string \<Rightarrow> 64 word \<Rightarrow> error option" where
  "ListCreate key ttl = Some notSupportedError"

definition ListLeftPop :: "string \<Rightarrow> error + string" where
  "ListLeftPop key = Inl notSupportedError"

definition ListRightPop :: "string \<Rightarrow> error + string" where
  "ListRightPop key = Inl notSupportedError"

definition ListLeftPush :: "string \<Rightarrow> string \<Rightarrow> error option" where
  "ListLeftPush key v = Some notSupportedError"

definition ListRightPush :: "string \<Rightarrow> string \<Rightarrow> error option" where
  "ListRightPush key v = Some notSupportedError"

definition ListLen :: "string \<Rightarrow> error + nat" where
  "ListLen key = Inl notSupportedError"

definition ListRange :: "string \<Rightarrow> int \<Rightarrow> int \<Rightarrow> error + string list" where
  "ListRange key start stop = Inl notSupportedError"

subsection \<open>The sweep\<close>

text \<open>
  One turn of the loop of \<open>gc\<close>. The read transaction appends the key of every record
  whose item is not alive and returns at the first record that does not decode; the write
  transaction runs only when the scan returned no error and collected a key.
\<close>

fun gc_scan ::
  "'b library \<Rightarrow> (string \<Rightarrow> Time) \<Rightarrow> 'b bucket \<Rightarrow> string list \<Rightarrow> error option \<times> string list" where
  "gc_scan L now [] deleteKeys = (None, deleteKeys)"
| "gc_scan L now ((key, data) # rest) deleteKeys =
     (case Decode L data of
        None \<Rightarrow> (Some gobError, deleteKeys)
      | Some item \<Rightarrow>
          gc_scan L now rest
            (if \<not> IsAlive item (now key) then deleteKeys @ [key] else deleteKeys))"

definition gc_cycle :: "'b library \<Rightarrow> (string \<Rightarrow> Time) \<Rightarrow> 'b bucket \<Rightarrow> 'b bucket" where
  "gc_cycle L now bucket =
     (case gc_scan L now bucket [] of
        (Some err, deleteKeys) \<Rightarrow> bucket
      | (None, deleteKeys) \<Rightarrow>
          if 0 < length deleteKeys
          then snd (db_Update (\<lambda>b. (None, foldl bucket_Delete b deleteKeys)) bucket)
          else bucket)"

text \<open>
  The two transactions of a turn taken apart, since calls of the interface can come
  between them: \<open>gc_read\<close> is the read transaction and gives the keys that the write
  transaction will delete (none when the scan returned an error), \<open>gc_write\<close> is the
  write transaction, which deletes the keys it is given without looking at the records
  again.
\<close>

definition gc_read :: "'b library \<Rightarrow> (string \<Rightarrow> Time) \<Rightarrow> 'b bucket \<Rightarrow> string list" where
  "gc_read L now bucket =
     (case gc_scan L now bucket [] of
        (Some err, deleteKeys) \<Rightarrow> []
      | (None, deleteKeys) \<Rightarrow> deleteKeys)"

definition gc_write :: "string list \<Rightarrow> 'b bucket \<Rightarrow> 'b bucket" where
  "gc_write deleteKeys bucket =
     (if 0 < length deleteKeys
      then snd (db_Update (\<lambda>b. (None, foldl bucket_Delete b deleteKeys)) bucket)
      else bucket)"

subsection \<open>The Storage interface as one step function\<close>

text \<open>
  A call of the Storage interface, the clock readings it may take, and its outcome: the
  value or the error it returns and the bucket it leaves.
\<close>

datatype command =
    CallKeys
  | CallExpire string "64 word"
  | CallGet string
  | CallSet string string "64 word"
  | CallUpdate string string
  | CallDelete string
  | CallHashCreate string "64 word"
  | CallHashGet string string
  | CallHashGetAll string
  | CallHashSet string string string
  | CallHashDelete string string
  | CallHashLen string
  | CallHashKeys string
  | CallListCreate string "64 word"
  | CallListLeftPop string
  | CallListRightPop string
  | CallListLeftPush string string
  | CallListRightPush string string
  | CallListLen string
  | CallListRange string int int

record clock =
  at_check :: Time
  at_create :: Time
  at_record :: "string \<Rightarrow> Time"

datatype reply =
    Failed error
  | Done
  | Str string
  | Strs "string list"
  | Fields Hash
  | Len nat

definition of_error :: "error option \<times> 'b bucket \<Rightarrow> reply \<times> 'b bucket" where
  "of_error r = (case r of (None, bucket) \<Rightarrow> (Done, bucket) | (Some err, bucket) \<Rightarrow> (Failed err, bucket))"

definition of_value :: "('a \<Rightarrow> reply) \<Rightarrow> error + 'a \<Rightarrow> 'b bucket \<Rightarrow> reply \<times> 'b bucket" where
  "of_value wrap r bucket = (case r of Inl err \<Rightarrow> (Failed err, bucket) | Inr v \<Rightarrow> (wrap v, bucket))"

fun exec :: "'b library \<Rightarrow> command \<Rightarrow> clock \<Rightarrow> 'b bucket \<Rightarrow> reply \<times> 'b bucket" where
  "exec L CallKeys c b = (Strs (Keys L (at_record c) b), b)"
| "exec L (CallExpire key ttl) c b = of_error (Expire L key ttl (at_check c) (at_create c) b)"
| "exec L (CallGet key) c b = of_value Str (Get L key (at_check c) b) b"
| "exec L (CallSet key v ttl) c b = of_error (Set L key v ttl (at_check c) (at_create c) b)"
| "exec L (CallUpdate key v) c b = of_error (Update L key v (at_check c) b)"
| "exec L (CallDelete key) c b = of_error (Delete L key (at_check c) b)"
| "exec L (CallHashCreate key ttl) c b =
     of_error (HashCreate L key ttl (at_check c) (at_create c) b)"
| "exec L (CallHashGet key field) c b = of_value Str (HashGet L key field (at_check c) b) b"
| "exec L (CallHashGetAll key) c b = of_value Fields (HashGetAll L key (at_check c) b) b"
| "exec L (CallHashSet key field v) c b =
     of_error (HashSet L key field v (at_check c) (at_create c) b)"
| "exec L (CallHashDelete key field) c b = of_error (HashDelete L key field (at_check c) b)"
| "exec L (CallHashLen key) c b = of_value Len (HashLen L key (at_check c) b) b"
| "exec L (CallHashKeys key) c b = of_value Strs (HashKeys L key (at_check c) b) b"
| "exec L (CallListCreate key ttl) c b = of_error (ListCreate key ttl, b)"
| "exec L (CallListLeftPop key) c b = of_value Str (ListLeftPop key) b"
| "exec L (CallListRightPop key) c b = of_value Str (ListRightPop key) b"
| "exec L (CallListLeftPush key v) c b = of_error (ListLeftPush key v, b)"
| "exec L (CallListRightPush key v) c b = of_error (ListRightPush key v, b)"
| "exec L (CallListLen key) c b = of_value Len (ListLen key) b"
| "exec L (CallListRange key start stop) c b = of_value Strs (ListRange key start stop) b"

text \<open>
  What happens to a store over time. The state is the bucket together with the keys that
  the sweep has collected and not yet deleted. An event is a call of the interface, the
  read transaction of the sweep or its write transaction, each with its own clock readings;
  calls may come between the two transactions of a turn.
\<close>

datatype event = Call command clock | Scan "string \<Rightarrow> Time" | Purge

fun run :: "'b library \<Rightarrow> event list \<Rightarrow> 'b bucket \<times> string list \<Rightarrow> 'b bucket \<times> string list" where
  "run L [] s = s"
| "run L (Call cmd c # evs) (b, deleteKeys) = run L evs (snd (exec L cmd c b), deleteKeys)"
| "run L (Scan now # evs) (b, deleteKeys) = run L evs (b, gc_read L now b)"
| "run L (Purge # evs) (b, deleteKeys) = run L evs (gc_write deleteKeys b, [])"


subsection \<open>Notions for stating the properties\<close>

text \<open>
  \<open>holds L bucket key item\<close>: there is a record under \<open>key\<close> and it decodes to
  \<open>item\<close>. \<open>expired L now r\<close>: the record \<open>r\<close> decodes to an item that fails the
  liveness check at the instant the scan reads the clock for it. \<open>ordered\<close>: the keys
  of the bucket increase strictly, as the engine keeps them.
\<close>

definition holds :: "'b library \<Rightarrow> 'b bucket \<Rightarrow> string \<Rightarrow> Item \<Rightarrow> bool" where
  "holds L bucket key item =
     (case bucket_Get bucket key of None \<Rightarrow> False | Some data \<Rightarrow> Decode L data = Some item)"

definition expired :: "'b library \<Rightarrow> (string \<Rightarrow> Time) \<Rightarrow> string \<times> 'b \<Rightarrow> bool" where
  "expired L now r =
     (case Decode L (snd r) of None \<Rightarrow> False | Some item \<Rightarrow> \<not> IsAlive item (now (fst r)))"

definition ordered :: "'b bucket \<Rightarrow> bool" where
  "ordered bucket = sorted_wrt (<) (map fst bucket)"

text \<open>
  \<open>stores L key item data\<close>: the libraries do their part for this item: gob encodes it
  to \<open>data\<close> and decodes \<open>data\<close> back to it, and the engine takes \<open>data\<close> under
  \<open>key\<close>. \<open>key_of\<close> is the key a call names.
\<close>

definition stores :: "'b library \<Rightarrow> string \<Rightarrow> Item \<Rightarrow> 'b \<Rightarrow> bool" where
  "stores L key item data =
     (Encode L item = Some data \<and> \<not> PutFails L key data \<and> Decode L data = Some item)"

fun key_of :: "command \<Rightarrow> string option" where
  "key_of CallKeys = None"
| "key_of (CallExpire key ttl) = Some key"
| "key_of (CallGet key) = Some key"
| "key_of (CallSet key v ttl) = Some key"
| "key_of (CallUpdate key v) = Some key"
| "key_of (CallDelete key) = Some key"
| "key_of (CallHashCreate key ttl) = Some key"
| "key_of (CallHashGet key field) = Some key"
| "key_of (CallHashGetAll key) = Some key"
| "key_of (CallHashSet key field v) = Some key"
| "key_of (CallHashDelete key field) = Some key"
| "key_of (CallHashLen key) = Some key"
| "key_of (CallHashKeys key) = Some key"
| "key_of (CallListCreate key ttl) = Some key"
| "key_of (CallListLeftPop key) = Some key"
| "key_of (CallListRightPop key) = Some key"
| "key_of (CallListLeftPush key v) = Some key"
| "key_of (CallListRightPush key v) = Some key"
| "key_of (CallListLen key) = Some key"
| "key_of (CallListRange key start stop) = Some key"

subsection \<open>A library to run the storage on\<close>

text \<open>
  encoding/gob as the storage relies on it: \<open>Encode\<close> takes every Item and \<open>Decode\<close>
  gives back the Item that was encoded; every other record is junk that does not decode.
  A record is then the Item it encodes, or junk. What bolt's \<open>Put\<close> refuses remains a
  parameter.
\<close>

definition gob_bolt :: "(string \<Rightarrow> Item option \<Rightarrow> bool) \<Rightarrow> Item option library" where
  "gob_bolt refuses =
     \<lparr>Encode = (\<lambda>item. Some (Some item)), Decode = (\<lambda>data. data), PutFails = refuses\<rparr>"

text \<open>
  An instance of the parameters for concrete runs: a record is either the item itself or
  junk that does not decode; the engine refuses a blank key and nothing else.
\<close>

definition plain :: "Item option library" where
  "plain = \<lparr>Encode = (\<lambda>item. Some (Some item)), Decode = (\<lambda>data. data),
            PutFails = (\<lambda>key data. key = [])\<rparr>"

definition clock_at :: "Time \<Rightarrow> clock" where
  "clock_at t = \<lparr>at_check = t, at_create = t, at_record = (\<lambda>key. t)\<rparr>"

text \<open>An instant in the year 2025, in nanoseconds since the zero instant.\<close>

abbreviation (input) year2025 :: Time where
  "year2025 \<equiv> 63900000000000000000"

section \<open>The bucket, \<open>getItem\<close> and \<open>saveItem\<close>\<close>

lemma bucket_Get_insert_key:
  "bucket_Get (insert_key k d b) key = (if key = k then Some d else bucket_Get b key)"
  by (induction b) (auto simp: bucket_Get_def)


lemma bucket_Get_mem: "bucket_Get b key = Some d \<Longrightarrow> (key, d) \<in> set b"
  by (simp add: bucket_Get_def map_of_SomeD)

lemma keys_insert_key: "set (map fst (insert_key k d b)) = insert k (set (map fst b))"
proof (induction b)
  case Nil
  show ?case by simp
next
  case (Cons r rest)
  obtain k' d' where r: "r = (k', d')" by (cases r)
  from Cons.IH show ?case unfolding r by (cases "k = k'"; cases "k < k'") auto
qed

lemma ordered_insert_key: "ordered b \<Longrightarrow> ordered (insert_key k d b)"
proof (induction b)
  case Nil
  then show ?case by (simp add: ordered_def)
next
  case (Cons r rest)
  obtain k' d' where r: "r = (k', d')" by (cases r)
  from Cons.prems have tail: "ordered rest" and head: "\<forall>y\<in>set (map fst rest). k' < y"
    by (simp_all add: ordered_def r)
  show ?case
  proof (cases "k = k'")
    case True
    with Cons.prems show ?thesis by (simp add: ordered_def r)
  next
    case False
    show ?thesis
    proof (cases "k < k'")
      case True
      with Cons.prems show ?thesis by (auto simp: ordered_def r)
    next
      case ge: False
      with False have "k' < k" by simp
      with head have "\<forall>y\<in>set (map fst (insert_key k d rest)). k' < y"
        unfolding keys_insert_key by simp
      with Cons.IH [OF tail] False ge show ?thesis by (simp add: ordered_def r)
    qed
  qed
qed

lemma ordered_Delete: "ordered b \<Longrightarrow> ordered (bucket_Delete b k)"
proof -
  have "map fst (bucket_Delete b k) = filter (\<lambda>x. x \<noteq> k) (map fst b)"
    by (simp add: bucket_Delete_def filter_map comp_def)
  then show "ordered b \<Longrightarrow> ?thesis" by (simp add: ordered_def sorted_wrt_filter)
qed

lemma ordered_filter: "ordered b \<Longrightarrow> ordered (filter P b)"
  by (simp add: ordered_def sorted_wrt_map sorted_wrt_filter)

lemma ordered_distinct: "ordered b \<Longrightarrow> distinct (map fst b)"
  by (simp add: ordered_def strict_sorted_iff)

lemma same_key_same_record:
  "distinct (map fst b) \<Longrightarrow> r \<in> set b \<Longrightarrow> r' \<in> set b \<Longrightarrow> fst r = fst r' \<Longrightarrow> r = r'"
  by (metis distinct_map inj_onD)

lemma bucket_Get_filter:
  assumes "distinct (map fst b)" and "bucket_Get b key = Some d" and "P (key, d)"
  shows "bucket_Get (filter P b) key = Some d"
proof -
  from assms(2) have "(key, d) \<in> set b" by (rule bucket_Get_mem)
  with assms(3) have "(key, d) \<in> set (filter P b)" by simp
  moreover from assms(1) have "distinct (map fst (filter P b))"
    by (simp add: distinct_map_filter)
  ultimately show ?thesis by (simp add: bucket_Get_def)
qed

lemma holds_insert_key:
  "holds L (insert_key k d b) key item =
     (if key = k then Decode L d = Some item else holds L b key item)"
  by (simp add: holds_def bucket_Get_insert_key)

lemma holds_fun: "holds L b key item \<Longrightarrow> holds L b key item' \<Longrightarrow> item' = item"
  by (auto simp: holds_def split: option.splits)

lemma getItem_Inr: "getItem L b key now = Inr item \<longleftrightarrow> holds L b key item \<and> IsAlive item now"
  by (auto simp: getItem_def holds_def split: option.splits)

lemma getItem_KeyNotExists:
  "getItem L b key now = Inl KeyNotExistsError \<longleftrightarrow>
     bucket_Get b key = None \<or> (\<exists>item. holds L b key item \<and> \<not> IsAlive item now)"
  by (auto simp: getItem_def holds_def split: option.splits)

lemma getItem_dead: "holds L b key item \<Longrightarrow> \<not> IsAlive item now \<Longrightarrow> getItem L b key now = Inl KeyNotExistsError"
  by (auto simp: getItem_def holds_def split: option.splits)

lemma getItem_alive: "holds L b key item \<Longrightarrow> IsAlive item now \<Longrightarrow> getItem L b key now = Inr item"
  by (simp add: getItem_Inr)

lemma getItem_absent: "bucket_Get b key = None \<Longrightarrow> getItem L b key now = Inl KeyNotExistsError"
  by (simp add: getItem_def)

lemma getItem_error: "getItem L b key now = Inl e \<Longrightarrow> e = KeyNotExistsError \<or> e = gobError"
  by (auto simp: getItem_def split: option.splits if_splits)

lemma getItem_cases:
  obtains (absent) "bucket_Get b key = None" "getItem L b key now = Inl KeyNotExistsError"
  | (junk) data where "bucket_Get b key = Some data" "Decode L data = None" "getItem L b key now = Inl gobError"
  | (dead) item where "holds L b key item" "\<not> IsAlive item now" "getItem L b key now = Inl KeyNotExistsError"
  | (alive) item where "holds L b key item" "IsAlive item now" "getItem L b key now = Inr item"
  by (cases "bucket_Get b key"; cases "Decode L (the (bucket_Get b key))";
      cases "IsAlive (the (Decode L (the (bucket_Get b key)))) now")
     (auto simp: getItem_def holds_def)

lemma not_alive_getItem:
  "\<not> (\<exists>item. holds L b key item \<and> IsAlive item now) \<Longrightarrow> \<exists>err. getItem L b key now = Inl err"
  by (cases "getItem L b key now") (auto simp: getItem_Inr)

lemma not_there_getItem:
  "bucket_Get b key = None \<or> (\<exists>item. holds L b key item \<and> \<not> IsAlive item now) \<Longrightarrow>
     getItem L b key now = Inl KeyNotExistsError"
  by (simp add: getItem_KeyNotExists)

lemma saveItem_ok:
  "Encode L item = Some d \<Longrightarrow> \<not> PutFails L key d \<Longrightarrow> saveItem L b key item = (None, insert_key key d b)"
  by (simp add: saveItem_def bucket_Put_def)

lemma saveItem_cases:
  "saveItem L b key item = (Some gobError, b) \<or> saveItem L b key item = (Some boltError, b) \<or>
   (\<exists>d. Encode L item = Some d \<and> \<not> PutFails L key d \<and> saveItem L b key item = (None, insert_key key d b))"
  by (auto simp: saveItem_def bucket_Put_def split: option.splits)

lemma saveItem_error: "fst (saveItem L b key item) = Some e \<Longrightarrow> e = gobError \<or> e = boltError"
  using saveItem_cases [of L b key item] by auto

lemma saveItem_shape:
  "snd (saveItem L b key item) = b \<or> (\<exists>d. snd (saveItem L b key item) = insert_key key d b)"
  using saveItem_cases [of L b key item] by auto

lemma db_Update_snd: "snd (db_Update fn b) = (if fst (fn b) = None then snd (fn b) else b)"
  by (auto simp: db_Update_def split: prod.splits option.splits)

lemma db_Update_fst: "fst (db_Update fn b) = fst (fn b)"
  by (auto simp: db_Update_def split: prod.splits option.splits)

lemma db_Update_error: "fst (db_Update fn b) = Some e \<Longrightarrow> snd (db_Update fn b) = b"
  by (auto simp: db_Update_def split: prod.splits option.splits)

lemma db_Update_saveItem_error:
  "fst (db_Update (\<lambda>bucket. saveItem L bucket key item) b) \<noteq> Some KeyAlreadyExistsError"
  "fst (db_Update (\<lambda>bucket. saveItem L bucket key item) b) \<noteq> Some KeyNotExistsError"
  "fst (db_Update (\<lambda>bucket. saveItem L bucket key item) b) \<noteq> Some KeyHashTypeError"
  "fst (db_Update (\<lambda>bucket. saveItem L bucket key item) b) \<noteq> Some KeyStringTypeError"
  "fst (db_Update (\<lambda>bucket. saveItem L bucket key item) b) \<noteq> Some KeyListTypeError"
  "fst (db_Update (\<lambda>bucket. saveItem L bucket key item) b) \<noteq> Some FieldNotExistError"
  using saveItem_cases [of L b key item] by (auto simp: db_Update_fst)

lemma db_Update_saveItem_ok:
  "stores L key item d \<Longrightarrow>
     db_Update (\<lambda>bucket. saveItem L bucket key item) b = (None, insert_key key d b)"
  by (simp add: stores_def db_Update_def saveItem_ok)

lemma db_Update_saveItem_shape:
  "snd (db_Update (\<lambda>bucket. saveItem L bucket key item) b) = b \<or>
   (\<exists>d. snd (db_Update (\<lambda>bucket. saveItem L bucket key item) b) = insert_key key d b)"
  using saveItem_shape [of L b key item] by (auto simp: db_Update_snd)

lemma CastHash_mismatch: "(\<forall>h. Value item \<noteq> HashValue h) \<longleftrightarrow> CastHash item = Inl KeyHashTypeError"
  by (cases "Value item") (auto simp: CastHash_def)

lemma CastString_mismatch: "(\<forall>s. Value item \<noteq> StringValue s) \<longleftrightarrow> CastString item = Inl KeyStringTypeError"
  by (cases "Value item") (auto simp: CastString_def)

lemma GetValue_error: "GetValue h f = Inl e \<Longrightarrow> e = FieldNotExistError"
  by (auto simp: GetValue_def split: option.splits)

section \<open>The expiration instant\<close>

lemma sint_seconds:
  "sint (ttl * Second) = (uint ttl * 1000000000 + 2 ^ 63) mod 2 ^ 64 - 2 ^ 63"
proof -
  have "ttl * Second = word_of_int (uint ttl * 1000000000)"
    by (simp add: Second_def)
  then show ?thesis
    by (simp only: int_word_sint) simp
qed

lemma getExpireTime_in_range:
  assumes "0 < ttl" and "uint ttl * 1000000000 < 2 ^ 63"
  shows "getExpireTime ttl now = now + uint ttl * 1000000000"
proof -
  have "0 \<le> uint ttl * 1000000000" by simp
  with assms(2) have "(uint ttl * 1000000000 + 2 ^ 63) mod 2 ^ 64 = uint ttl * 1000000000 + 2 ^ 63"
    by (intro mod_pos_pos_trivial) simp_all
  with assms(1) show ?thesis
    by (simp add: getExpireTime_def Add_def sint_seconds)
qed

lemma getExpireTime_zero: "getExpireTime 0 now = 0"
  by (simp add: getExpireTime_def)

lemma IsAlive_NewItem_in_range:
  assumes "0 < ttl" and "uint ttl * 1000000000 < 2 ^ 63" and "0 < now"
  shows "IsAlive (NewItem v ttl now) t \<longleftrightarrow> t < now + uint ttl * 1000000000"
proof -
  have "0 \<le> uint ttl * 1000000000" by simp
  with assms(3) have "now + uint ttl * 1000000000 \<noteq> 0" by linarith
  then show ?thesis
    by (simp add: IsAlive_def IsZero_def After_def NewItem_def getExpireTime_in_range [OF assms(1,2)])
qed

section \<open>The operations, case by case\<close>

lemma Set_alive:
  "holds L b key item \<Longrightarrow> IsAlive item now \<Longrightarrow>
     Set L key v ttl now now' b = (Some KeyAlreadyExistsError, b)"
  by (simp add: Set_def db_Update_def getItem_alive)

lemma Set_not_alive:
  "getItem L b key now = Inl err \<Longrightarrow>
     Set L key v ttl now now' b = db_Update (\<lambda>bucket. saveItem L bucket key (NewItem (StringValue v) ttl now')) b"
  by (simp add: Set_def db_Update_def)

lemma HashCreate_alive:
  "holds L b key item \<Longrightarrow> IsAlive item now \<Longrightarrow>
     HashCreate L key ttl now now' b = (Some KeyAlreadyExistsError, b)"
  by (simp add: HashCreate_def db_Update_def getItem_alive)

lemma HashCreate_not_alive:
  "getItem L b key now = Inl err \<Longrightarrow>
     HashCreate L key ttl now now' b = db_Update (\<lambda>bucket. saveItem L bucket key (NewItem (HashValue Map.empty) ttl now')) b"
  by (simp add: HashCreate_def db_Update_def)

lemma Update_alive:
  "holds L b key item \<Longrightarrow> IsAlive item now \<Longrightarrow>
     Update L key v now b = db_Update (\<lambda>bucket. saveItem L bucket key (item\<lparr>Value := StringValue v\<rparr>)) b"
  by (simp add: Update_def db_Update_def getItem_alive)

lemma Update_not_alive:
  "getItem L b key now = Inl err \<Longrightarrow> Update L key v now b = (Some err, b)"
  by (simp add: Update_def db_Update_def)

lemma Expire_alive:
  "holds L b key item \<Longrightarrow> IsAlive item now \<Longrightarrow>
     Expire L key ttl now now' b =
       db_Update (\<lambda>bucket. saveItem L bucket key (item\<lparr>ExpireTime := getExpireTime ttl now'\<rparr>)) b"
  by (simp add: Expire_def db_Update_def getItem_alive SetTTL_def)

lemma Expire_not_alive:
  "getItem L b key now = Inl err \<Longrightarrow> Expire L key ttl now now' b = (Some err, b)"
  by (simp add: Expire_def db_Update_def)

lemma Delete_alive:
  "holds L b key item \<Longrightarrow> IsAlive item now \<Longrightarrow> Delete L key now b = (None, bucket_Delete b key)"
  by (simp add: Delete_def db_Update_def getItem_alive)

lemma Delete_not_alive:
  "getItem L b key now = Inl err \<Longrightarrow> Delete L key now b = (Some err, b)"
  by (simp add: Delete_def db_Update_def)

lemma HashSet_not_alive:
  "getItem L b key now = Inl err \<Longrightarrow>
     HashSet L key field v now now' b =
       db_Update (\<lambda>bucket. saveItem L bucket key \<lparr>Value = HashValue [field \<mapsto> v], ExpireTime = 0\<rparr>) b"
  by (simp add: HashSet_def db_Update_def NewItem_def getExpireTime_def CastHash_def)

lemma HashSet_alive_hash:
  "holds L b key item \<Longrightarrow> IsAlive item now \<Longrightarrow> Value item = HashValue h \<Longrightarrow>
     HashSet L key field v now now' b =
       db_Update (\<lambda>bucket. saveItem L bucket key (item\<lparr>Value := HashValue (h(field \<mapsto> v))\<rparr>)) b"
  by (simp add: HashSet_def db_Update_def getItem_alive CastHash_def)

lemma HashSet_alive_other:
  "holds L b key item \<Longrightarrow> IsAlive item now \<Longrightarrow> \<forall>h. Value item \<noteq> HashValue h \<Longrightarrow>
     HashSet L key field v now now' b = (Some KeyHashTypeError, b)"
  by (simp add: HashSet_def db_Update_def getItem_alive CastHash_mismatch)

lemma HashDelete_not_alive:
  "getItem L b key now = Inl err \<Longrightarrow> HashDelete L key field now b = (Some err, b)"
  by (simp add: HashDelete_def db_Update_def)

lemma HashDelete_alive_other:
  "holds L b key item \<Longrightarrow> IsAlive item now \<Longrightarrow> \<forall>h. Value item \<noteq> HashValue h \<Longrightarrow>
     HashDelete L key field now b = (Some KeyHashTypeError, b)"
  by (simp add: HashDelete_def db_Update_def getItem_alive CastHash_mismatch)

lemma HashDelete_alive_no_field:
  "holds L b key item \<Longrightarrow> IsAlive item now \<Longrightarrow> Value item = HashValue h \<Longrightarrow> h field = None \<Longrightarrow>
     HashDelete L key field now b = (Some FieldNotExistError, b)"
  by (simp add: HashDelete_def db_Update_def getItem_alive CastHash_def GetValue_def)

lemma HashDelete_alive_field:
  "holds L b key item \<Longrightarrow> IsAlive item now \<Longrightarrow> Value item = HashValue h \<Longrightarrow> h field = Some old \<Longrightarrow>
     HashDelete L key field now b =
       db_Update (\<lambda>bucket. saveItem L bucket key (item\<lparr>Value := HashValue (h(field := None))\<rparr>)) b"
  by (simp add: HashDelete_def db_Update_def getItem_alive CastHash_def GetValue_def)

lemma getHash_KeyNotExists:
  "getItem L b key now = Inl KeyNotExistsError \<Longrightarrow> getHash L b key now = Inl KeyNotExistsError"
  by (simp add: getHash_def)

lemma getHash_mismatch:
  "getHash L b key now = Inl KeyHashTypeError \<Longrightarrow>
     \<exists>item. holds L b key item \<and> IsAlive item now \<and> (\<forall>h. Value item \<noteq> HashValue h)"
  by (cases L b key now rule: getItem_cases) (auto simp: getHash_def CastHash_mismatch)

lemma getHash_error:
  "getHash L b key now = Inl e \<Longrightarrow> e = KeyNotExistsError \<or> e = gobError \<or> e = KeyHashTypeError"
  by (cases L b key now rule: getItem_cases; cases "Value (projr (getItem L b key now))")
     (auto simp: getHash_def CastHash_def)

section \<open>The errors an operation can return\<close>

lemma Get_mismatch:
  "Get L key now b = Inl KeyStringTypeError \<Longrightarrow>
     \<exists>item. holds L b key item \<and> IsAlive item now \<and> (\<forall>s. Value item \<noteq> StringValue s)"
  by (cases L b key now rule: getItem_cases) (auto simp: Get_def CastString_mismatch)

lemma Get_error: "Get L key now b = Inl e \<Longrightarrow> e = KeyNotExistsError \<or> e = gobError \<or> e = KeyStringTypeError"
  by (cases L b key now rule: getItem_cases; cases "Value (projr (getItem L b key now))")
     (auto simp: Get_def CastString_def)

lemma HashGet_error:
  "HashGet L key field now b = Inl e \<Longrightarrow>
     e = KeyNotExistsError \<or> e = gobError \<or> e = FieldNotExistError \<or>
     e = KeyHashTypeError \<and> getHash L b key now = Inl KeyHashTypeError"
  by (cases "getHash L b key now") (auto simp: HashGet_def dest: getHash_error GetValue_error)

lemma HashLen_error:
  "HashLen L key now b = Inl e \<Longrightarrow> getHash L b key now = Inl e"
  by (cases "getHash L b key now") (auto simp: HashLen_def)

lemma HashKeys_error:
  "HashKeys L key now b = Inl e \<Longrightarrow> getHash L b key now = Inl e"
  by (cases "getHash L b key now") (auto simp: HashKeys_def)

lemma Expire_error:
  "fst (Expire L key ttl now now' b) = Some e \<Longrightarrow> e = KeyNotExistsError \<or> e = gobError \<or> e = boltError"
  by (cases "getItem L b key now")
     (auto simp: Expire_def db_Update_fst dest: getItem_error saveItem_error)

lemma Set_error:
  "fst (Set L key v ttl now now' b) = Some e \<Longrightarrow> e = KeyAlreadyExistsError \<or> e = gobError \<or> e = boltError"
  by (cases "getItem L b key now")
     (auto simp: Set_def db_Update_fst dest: saveItem_error)

lemma Update_error:
  "fst (Update L key v now b) = Some e \<Longrightarrow> e = KeyNotExistsError \<or> e = gobError \<or> e = boltError"
  by (cases "getItem L b key now")
     (auto simp: Update_def db_Update_fst dest: getItem_error saveItem_error)

lemma Delete_error:
  "fst (Delete L key now b) = Some e \<Longrightarrow> e = KeyNotExistsError \<or> e = gobError"
  by (cases "getItem L b key now")
     (auto simp: Delete_def db_Update_fst dest: getItem_error)

lemma HashCreate_error:
  "fst (HashCreate L key ttl now now' b) = Some e \<Longrightarrow> e = KeyAlreadyExistsError \<or> e = gobError \<or> e = boltError"
  by (cases "getItem L b key now")
     (auto simp: HashCreate_def db_Update_fst dest: saveItem_error)

lemma HashSet_mismatch:
  "fst (HashSet L key field v now now' b) = Some KeyHashTypeError \<Longrightarrow>
     \<exists>item. holds L b key item \<and> IsAlive item now \<and> (\<forall>h. Value item \<noteq> HashValue h)"
proof (cases L b key now rule: getItem_cases)
  case (alive item)
  assume e: "fst (HashSet L key field v now now' b) = Some KeyHashTypeError"
  show ?thesis
  proof (cases "Value item")
    case (HashValue h)
    with alive e show ?thesis
      by (simp add: HashSet_alive_hash db_Update_saveItem_error)
  qed (use alive in auto)
qed (simp_all add: HashSet_not_alive db_Update_saveItem_error)

lemma HashSet_error:
  "fst (HashSet L key field v now now' b) = Some e \<Longrightarrow> e = KeyHashTypeError \<or> e = gobError \<or> e = boltError"
proof (cases L b key now rule: getItem_cases)
  case (alive item)
  assume e: "fst (HashSet L key field v now now' b) = Some e"
  show ?thesis
  proof (cases "\<exists>h. Value item = HashValue h")
    case True
    then obtain h where "Value item = HashValue h" by blast
    with alive e show ?thesis
      by (auto simp: HashSet_alive_hash db_Update_fst dest: saveItem_error)
  next
    case False
    with alive e show ?thesis by (simp add: HashSet_alive_other)
  qed
qed (auto simp: HashSet_not_alive db_Update_fst dest: saveItem_error)

lemma HashDelete_mismatch:
  "fst (HashDelete L key field now b) = Some KeyHashTypeError \<Longrightarrow>
     \<exists>item. holds L b key item \<and> IsAlive item now \<and> (\<forall>h. Value item \<noteq> HashValue h)"
proof (cases L b key now rule: getItem_cases)
  case (alive item)
  assume e: "fst (HashDelete L key field now b) = Some KeyHashTypeError"
  show ?thesis
  proof (cases "Value item")
    case (HashValue h)
    with alive e show ?thesis
      by (cases "h field") (simp_all add: HashDelete_alive_no_field HashDelete_alive_field db_Update_saveItem_error)
  qed (use alive in auto)
qed (simp_all add: HashDelete_not_alive)

lemma HashDelete_error:
  "fst (HashDelete L key field now b) = Some e \<Longrightarrow> e \<noteq> KeyStringTypeError \<and> e \<noteq> KeyListTypeError"
proof (cases L b key now rule: getItem_cases)
  case (alive item)
  assume e: "fst (HashDelete L key field now b) = Some e"
  show ?thesis
  proof (cases "\<exists>h. Value item = HashValue h")
    case True
    then obtain h where "Value item = HashValue h" by blast
    with alive e show ?thesis
      by (cases "h field")
         (auto simp: HashDelete_alive_no_field HashDelete_alive_field db_Update_fst dest: saveItem_error)
  next
    case False
    with alive e show ?thesis by (auto simp: HashDelete_alive_other)
  qed
qed (auto simp: HashDelete_not_alive)

section \<open>The bucket an operation leaves\<close>

lemma Expire_shape:
  "snd (Expire L key ttl now now' b) = b \<or> (\<exists>d. snd (Expire L key ttl now now' b) = insert_key key d b)"
  using saveItem_shape [of L b key]
  by (cases "getItem L b key now") (auto simp: Expire_def db_Update_snd)

lemma Set_shape:
  "snd (Set L key v ttl now now' b) = b \<or> (\<exists>d. snd (Set L key v ttl now now' b) = insert_key key d b)"
  using saveItem_shape [of L b key]
  by (cases "getItem L b key now") (auto simp: Set_def db_Update_snd)

lemma Update_shape:
  "snd (Update L key v now b) = b \<or> (\<exists>d. snd (Update L key v now b) = insert_key key d b)"
  using saveItem_shape [of L b key]
  by (cases "getItem L b key now") (auto simp: Update_def db_Update_snd)

lemma Delete_shape:
  "snd (Delete L key now b) = b \<or> snd (Delete L key now b) = bucket_Delete b key"
  by (cases "getItem L b key now") (auto simp: Delete_def db_Update_snd)

lemma HashCreate_shape:
  "snd (HashCreate L key ttl now now' b) = b \<or>
   (\<exists>d. snd (HashCreate L key ttl now now' b) = insert_key key d b)"
  using saveItem_shape [of L b key]
  by (cases "getItem L b key now") (auto simp: HashCreate_def db_Update_snd)

lemma HashSet_shape:
  "snd (HashSet L key field v now now' b) = b \<or>
   (\<exists>d. snd (HashSet L key field v now now' b) = insert_key key d b)"
proof (cases L b key now rule: getItem_cases)
  case (alive item)
  show ?thesis
  proof (cases "\<exists>h. Value item = HashValue h")
    case True
    then obtain h where "Value item = HashValue h" by blast
    with alive show ?thesis by (simp add: HashSet_alive_hash db_Update_saveItem_shape)
  next
    case False
    with alive show ?thesis by (simp add: HashSet_alive_other)
  qed
qed (simp_all add: HashSet_not_alive db_Update_saveItem_shape)

lemma HashDelete_shape:
  "snd (HashDelete L key field now b) = b \<or>
   (\<exists>d. snd (HashDelete L key field now b) = insert_key key d b)"
proof (cases L b key now rule: getItem_cases)
  case (alive item)
  show ?thesis
  proof (cases "\<exists>h. Value item = HashValue h")
    case True
    then obtain h where "Value item = HashValue h" by blast
    with alive show ?thesis
      by (cases "h field")
         (simp_all add: HashDelete_alive_no_field HashDelete_alive_field db_Update_saveItem_shape)
  next
    case False
    with alive show ?thesis by (simp add: HashDelete_alive_other)
  qed
qed (simp_all add: HashDelete_not_alive)

section \<open>The step function\<close>

lemma of_error_Failed: "fst (of_error r) = Failed e \<longleftrightarrow> fst r = Some e"
  by (cases r; cases "fst r") (auto simp: of_error_def)

lemma of_error_snd: "snd (of_error r) = snd r"
  by (cases r; cases "fst r") (auto simp: of_error_def)

lemma of_value_snd: "snd (of_value wrap r b) = b"
  by (cases r) (auto simp: of_value_def)

lemma of_value_Failed:
  "(\<And>x. wrap x \<noteq> Failed e) \<Longrightarrow> fst (of_value wrap r b) = Failed e \<longleftrightarrow> r = Inl e"
  by (cases r) (auto simp: of_value_def)

lemmas of_value_Failed_simps =
  of_value_Failed [of Str, simplified] of_value_Failed [of Strs, simplified]
  of_value_Failed [of Fields, simplified] of_value_Failed [of Len, simplified]

lemma exec_string_mismatch:
  "fst (exec L cmd c b) = Failed KeyStringTypeError \<Longrightarrow>
     \<exists>key item. key_of cmd = Some key \<and> holds L b key item \<and> IsAlive item (at_check c) \<and>
                (\<forall>s. Value item \<noteq> StringValue s)"
proof (cases cmd)
  case (CallGet key)
  then show "fst (exec L cmd c b) = Failed KeyStringTypeError \<Longrightarrow> ?thesis"
    by (simp add: of_value_Failed_simps Get_mismatch)
qed (auto simp: of_error_Failed of_value_Failed_simps HashGetAll_def
       ListCreate_def ListLeftPop_def ListRightPop_def ListLeftPush_def ListRightPush_def
       ListLen_def ListRange_def
     dest: Expire_error Set_error Update_error Delete_error HashCreate_error HashGet_error
       getHash_error HashSet_error HashDelete_error HashLen_error HashKeys_error)

lemma exec_hash_mismatch:
  "fst (exec L cmd c b) = Failed KeyHashTypeError \<Longrightarrow>
     \<exists>key item. key_of cmd = Some key \<and> holds L b key item \<and> IsAlive item (at_check c) \<and>
                (\<forall>h. Value item \<noteq> HashValue h)"
proof (cases cmd)
  case (CallHashGet key field)
  then show "fst (exec L cmd c b) = Failed KeyHashTypeError \<Longrightarrow> ?thesis"
    by (auto simp: of_value_Failed_simps dest!: HashGet_error getHash_mismatch)
next
  case (CallHashGetAll key)
  then show "fst (exec L cmd c b) = Failed KeyHashTypeError \<Longrightarrow> ?thesis"
    by (auto simp: of_value_Failed_simps HashGetAll_def dest!: getHash_mismatch)
next
  case (CallHashSet key field v)
  then show "fst (exec L cmd c b) = Failed KeyHashTypeError \<Longrightarrow> ?thesis"
    by (auto simp: of_error_Failed dest!: HashSet_mismatch)
next
  case (CallHashDelete key field)
  then show "fst (exec L cmd c b) = Failed KeyHashTypeError \<Longrightarrow> ?thesis"
    by (auto simp: of_error_Failed dest!: HashDelete_mismatch)
next
  case (CallHashLen key)
  then show "fst (exec L cmd c b) = Failed KeyHashTypeError \<Longrightarrow> ?thesis"
    by (auto simp: of_value_Failed_simps dest!: HashLen_error getHash_mismatch)
next
  case (CallHashKeys key)
  then show "fst (exec L cmd c b) = Failed KeyHashTypeError \<Longrightarrow> ?thesis"
    by (auto simp: of_value_Failed_simps dest!: HashKeys_error getHash_mismatch)
qed (auto simp: of_error_Failed of_value_Failed_simps
       ListCreate_def ListLeftPop_def ListRightPop_def ListLeftPush_def ListRightPush_def
       ListLen_def ListRange_def
     dest: Expire_error Set_error Update_error Delete_error HashCreate_error Get_error)

lemma exec_no_list_mismatch: "fst (exec L cmd c b) \<noteq> Failed KeyListTypeError"
  by (cases cmd)
     (auto simp: of_error_Failed of_value_Failed_simps HashGetAll_def
       ListCreate_def ListLeftPop_def ListRightPop_def ListLeftPush_def ListRightPush_def
       ListLen_def ListRange_def
     dest: Expire_error Set_error Update_error Delete_error HashCreate_error HashGet_error
       getHash_error HashSet_error HashDelete_error HashLen_error HashKeys_error Get_error)

lemma exec_Failed_unchanged:
  "fst (exec L cmd c b) = Failed err \<Longrightarrow> snd (exec L cmd c b) = b"
  by (cases cmd)
     (auto simp: of_error_Failed of_error_snd of_value_snd Expire_def Set_def Update_def Delete_def
        HashCreate_def HashSet_def HashDelete_def ListCreate_def ListLeftPush_def ListRightPush_def
      dest: db_Update_error)

lemma exec_shape:
  "snd (exec L cmd c b) = b \<or>
   (\<exists>k d. key_of cmd = Some k \<and> snd (exec L cmd c b) = insert_key k d b) \<or>
   (\<exists>k. key_of cmd = Some k \<and> snd (exec L cmd c b) = bucket_Delete b k)"
proof (cases cmd)
  case (CallExpire key ttl)
  then show ?thesis using Expire_shape [of L key ttl "at_check c" "at_create c" b]
    by (auto simp: of_error_snd)
next
  case (CallSet key v ttl)
  then show ?thesis using Set_shape [of L key v ttl "at_check c" "at_create c" b]
    by (auto simp: of_error_snd)
next
  case (CallUpdate key v)
  then show ?thesis using Update_shape [of L key v "at_check c" b]
    by (auto simp: of_error_snd)
next
  case (CallDelete key)
  then show ?thesis using Delete_shape [of L key "at_check c" b]
    by (auto simp: of_error_snd)
next
  case (CallHashCreate key ttl)
  then show ?thesis using HashCreate_shape [of L key ttl "at_check c" "at_create c" b]
    by (auto simp: of_error_snd)
next
  case (CallHashSet key field v)
  then show ?thesis using HashSet_shape [of L key field v "at_check c" "at_create c" b]
    by (auto simp: of_error_snd)
next
  case (CallHashDelete key field)
  then show ?thesis using HashDelete_shape [of L key field "at_check c" b]
    by (auto simp: of_error_snd)
qed (simp_all add: of_error_snd of_value_snd)

lemma ordered_exec: "ordered b \<Longrightarrow> ordered (snd (exec L cmd c b))"
  using exec_shape [of L cmd c b] by (auto simp: ordered_insert_key ordered_Delete)



lemmas run_defs =
  Set_def Get_def Update_def Delete_def Expire_def HashCreate_def HashSet_def HashDelete_def
  HashGet_def HashGetAll_def getHash_def GetValue_def
  db_Update_def getItem_def saveItem_def bucket_Get_def bucket_Put_def bucket_Delete_def
  plain_def NewItem_def SetTTL_def getExpireTime_def CastString_def CastHash_def
  IsAlive_def IsZero_def After_def of_error_def of_value_def clock_at_def

section \<open>The sweep\<close>

lemma gc_scan_junk:
  "\<exists>r\<in>set b. Decode L (snd r) = None \<Longrightarrow> fst (gc_scan L now b acc) = Some gobError"
proof (induction b arbitrary: acc)
  case Nil
  then show ?case by simp
next
  case (Cons r rest)
  obtain key data where r: "r = (key, data)" by (cases r)
  show ?case
  proof (cases "Decode L data")
    case None
    then show ?thesis by (simp add: r)
  next
    case (Some item)
    with Cons.prems have "\<exists>r\<in>set rest. Decode L (snd r) = None" by (auto simp: r)
    then show ?thesis by (simp add: r Some Cons.IH)
  qed
qed

lemma gc_scan_clean:
  "\<forall>r\<in>set b. Decode L (snd r) \<noteq> None \<Longrightarrow>
     gc_scan L now b acc = (None, acc @ map fst (filter (expired L now) b))"
  by (induction b arbitrary: acc) (auto simp: expired_def split: option.splits)

lemma foldl_bucket_Delete: "foldl bucket_Delete b ks = filter (\<lambda>r. fst r \<notin> set ks) b"
proof (induction ks arbitrary: b)
  case Nil
  show ?case by simp
next
  case (Cons k ks)
  show ?case by (simp add: Cons.IH) (auto simp: bucket_Delete_def intro: filter_cong)
qed

lemma gc_cycle_junk: "\<exists>r\<in>set b. Decode L (snd r) = None \<Longrightarrow> gc_cycle L now b = b"
  using gc_scan_junk [of b L now "[]"]
  by (cases "gc_scan L now b []") (auto simp: gc_cycle_def)

lemma gc_cycle_clean:
  assumes "\<forall>r\<in>set b. Decode L (snd r) \<noteq> None"
  shows "gc_cycle L now b = filter (\<lambda>r. fst r \<notin> fst ` set (filter (expired L now) b)) b"
proof -
  have scan: "gc_scan L now b [] = (None, map fst (filter (expired L now) b))"
    using gc_scan_clean [OF assms, of now "[]"] by simp
  show ?thesis
  proof (cases "filter (expired L now) b = []")
    case True
    then show ?thesis by (simp add: gc_cycle_def scan)
  next
    case False
    then show ?thesis
      by (simp add: gc_cycle_def scan db_Update_def foldl_bucket_Delete)
  qed
qed

lemma key_deleted_iff_expired:
  assumes "distinct (map fst b)" and "r \<in> set b"
  shows "fst r \<in> fst ` set (filter (expired L now) b) \<longleftrightarrow> expired L now r"
proof
  assume "fst r \<in> fst ` set (filter (expired L now) b)"
  then obtain r' where r': "r' \<in> set b" "expired L now r'" "fst r = fst r'" by auto
  with assms have "r = r'" by (blast intro: same_key_same_record)
  with r' show "expired L now r" by simp
next
  assume "expired L now r"
  with assms(2) show "fst r \<in> fst ` set (filter (expired L now) b)" by force
qed

lemma gc_cycle_clean_distinct:
  assumes "distinct (map fst b)" and "\<forall>r\<in>set b. Decode L (snd r) \<noteq> None"
  shows "gc_cycle L now b = filter (\<lambda>r. \<not> expired L now r) b"
proof -
  have "\<forall>r\<in>set b. (fst r \<notin> fst ` set (filter (expired L now) b)) = (\<not> expired L now r)"
    using key_deleted_iff_expired [OF assms(1)] by blast
  then show ?thesis
    unfolding gc_cycle_clean [OF assms(2)] by (intro filter_cong) (rule refl, blast)
qed

lemma gc_cycle_keeps_alive:
  assumes "ordered b" and "holds L b key item" and "IsAlive item (now key)"
  shows "bucket_Get (gc_cycle L now b) key = bucket_Get b key"
proof (cases "\<exists>r\<in>set b. Decode L (snd r) = None")
  case True
  then show ?thesis by (simp add: gc_cycle_junk)
next
  case False
  from assms(1) have d: "distinct (map fst b)" by (rule ordered_distinct)
  from assms(2) obtain data where data: "bucket_Get b key = Some data" "Decode L data = Some item"
    by (auto simp: holds_def split: option.splits)
  with assms(3) have "\<not> expired L now (key, data)" by (simp add: expired_def)
  with d data(1) have "bucket_Get (filter (\<lambda>r. \<not> expired L now r) b) key = Some data"
    by (intro bucket_Get_filter)
  with False d data(1) show ?thesis by (simp add: gc_cycle_clean_distinct)
qed

lemma ordered_gc_cycle: "ordered b \<Longrightarrow> ordered (gc_cycle L now b)"
  by (cases "\<exists>r\<in>set b. Decode L (snd r) = None")
     (simp_all add: gc_cycle_junk gc_cycle_clean ordered_filter)

lemma gc_cycle_removes_dead:
  assumes "\<forall>r\<in>set b. Decode L (snd r) \<noteq> None" and "holds L b key item" and "\<not> IsAlive item (now key)"
  shows "bucket_Get (gc_cycle L now b) key = None"
proof -
  from assms(2) obtain data where data: "bucket_Get b key = Some data" "Decode L data = Some item"
    by (auto simp: holds_def split: option.splits)
  then have "(key, data) \<in> set b" by (simp add: bucket_Get_mem)
  moreover from data assms(3) have "expired L now (key, data)" by (simp add: expired_def)
  ultimately have "key \<in> fst ` set (filter (expired L now) b)" by force
  moreover define S where "S = fst ` set (filter (expired L now) b)"
  ultimately have "key \<in> S" by simp
  then have "key \<notin> fst ` set (filter (\<lambda>r. fst r \<notin> S) b)" by auto
  then show ?thesis
    unfolding gc_cycle_clean [OF assms(1)] bucket_Get_def S_def by (simp add: map_of_eq_None_iff)
qed


lemma gc_write_filter: "gc_write ks b = filter (\<lambda>r. fst r \<notin> set ks) b"
  by (cases ks) (simp_all add: gc_write_def db_Update_def foldl_bucket_Delete del: foldl_Cons)

lemma gc_cycle_read_write: "gc_cycle L now b = gc_write (gc_read L now b) b"
  by (cases "gc_scan L now b []"; cases "fst (gc_scan L now b [])")
     (auto simp: gc_cycle_def gc_read_def gc_write_def)



lemma ordered_gc_write: "ordered b \<Longrightarrow> ordered (gc_write ks b)"
  by (simp add: gc_write_filter ordered_filter)


lemma ordered_run: "ordered b \<Longrightarrow> ordered (fst (run L evs (b, ks)))"
proof (induction evs arbitrary: b ks)
  case Nil
  then show ?case by simp
next
  case (Cons ev evs)
  then show ?case by (cases ev) (simp_all add: ordered_exec ordered_gc_write)
qed

lemma stores_gob_bolt:
  "stores (gob_bolt refuses) key item d \<longleftrightarrow> d = Some item \<and> \<not> refuses key (Some item)"
  by (auto simp: stores_def gob_bolt_def)

lemma plain_gob_bolt: "plain = gob_bolt (\<lambda>key data. key = [])"
  by (simp add: plain_def gob_bolt_def)



lemma Set_creates:
  assumes "\<not> (\<exists>item. holds L b key item \<and> IsAlive item now)"
    and "stores L key (NewItem (StringValue v) ttl now') d"
  shows "Set L key v ttl now now' b = (None, insert_key key d b)"
    and "holds L (insert_key key d b) key (NewItem (StringValue v) ttl now')"
proof -
  from assms(1) obtain err where err: "getItem L b key now = Inl err"
    using not_alive_getItem by blast
  show "Set L key v ttl now now' b = (None, insert_key key d b)"
    using assms(2) by (simp add: Set_not_alive [OF err] db_Update_saveItem_ok)
  show "holds L (insert_key key d b) key (NewItem (StringValue v) ttl now')"
    using assms(2) by (simp add: holds_insert_key stores_def)
qed

lemma HashCreate_creates:
  assumes "\<not> (\<exists>item. holds L b key item \<and> IsAlive item now)"
    and "stores L key (NewItem (HashValue Map.empty) ttl now') d"
  shows "HashCreate L key ttl now now' b = (None, insert_key key d b)"
    and "holds L (insert_key key d b) key (NewItem (HashValue Map.empty) ttl now')"
proof -
  from assms(1) obtain err where err: "getItem L b key now = Inl err"
    using not_alive_getItem by blast
  show "HashCreate L key ttl now now' b = (None, insert_key key d b)"
    using assms(2) by (simp add: HashCreate_not_alive [OF err] db_Update_saveItem_ok)
  show "holds L (insert_key key d b) key (NewItem (HashValue Map.empty) ttl now')"
    using assms(2) by (simp add: holds_insert_key stores_def)
qed

lemma HashSet_creates:
  assumes "\<not> (\<exists>item. holds L b key item \<and> IsAlive item now)"
    and "stores L key \<lparr>Value = HashValue [field \<mapsto> v], ExpireTime = 0\<rparr> d"
  shows "HashSet L key field v now now' b = (None, insert_key key d b)"
    and "holds L (insert_key key d b) key \<lparr>Value = HashValue [field \<mapsto> v], ExpireTime = 0\<rparr>"
proof -
  from assms(1) obtain err where "getItem L b key now = Inl err"
    using not_alive_getItem by blast
  then have "HashSet L key field v now now' b =
       db_Update (\<lambda>bucket. saveItem L bucket key \<lparr>Value = HashValue [field \<mapsto> v], ExpireTime = 0\<rparr>) b"
    by (rule HashSet_not_alive)
  with assms(2) show "HashSet L key field v now now' b = (None, insert_key key d b)"
    by (simp add: db_Update_saveItem_ok)
  from assms(2) show "holds L (insert_key key d b) key \<lparr>Value = HashValue [field \<mapsto> v], ExpireTime = 0\<rparr>"
    by (simp add: holds_insert_key stores_def)
qed

lemma HashSet_upserts:
  assumes "holds L b key item" and "IsAlive item now" and "Value item = HashValue h"
    and "stores L key \<lparr>Value = HashValue (h(field \<mapsto> v)), ExpireTime = ExpireTime item\<rparr> d"
  shows "HashSet L key field v now now' b = (None, insert_key key d b)"
    and "holds L (insert_key key d b) key
          \<lparr>Value = HashValue (h(field \<mapsto> v)), ExpireTime = ExpireTime item\<rparr>"
proof -
  have eq: "item\<lparr>Value := HashValue (h(field \<mapsto> v))\<rparr>
      = \<lparr>Value = HashValue (h(field \<mapsto> v)), ExpireTime = ExpireTime item\<rparr>"
    by simp
  from assms(1-3) have "HashSet L key field v now now' b =
       db_Update (\<lambda>bucket. saveItem L bucket key (item\<lparr>Value := HashValue (h(field \<mapsto> v))\<rparr>)) b"
    by (simp add: HashSet_alive_hash)
  with assms(4) show "HashSet L key field v now now' b = (None, insert_key key d b)"
    unfolding eq by (simp add: db_Update_saveItem_ok)
  from assms(4) show "holds L (insert_key key d b) key
          \<lparr>Value = HashValue (h(field \<mapsto> v)), ExpireTime = ExpireTime item\<rparr>"
    by (simp add: holds_insert_key stores_def)
qed

lemma plain_stores: "key \<noteq> [] \<Longrightarrow> stores plain key item (Some item)"
  by (simp add: stores_def plain_def)

section \<open>Time to live within the range of a Duration, and the frame of \<open>Expire\<close>\<close>

lemma Set_Get_in_range:
  assumes "0 < ttl" and "uint ttl * 1000000000 < 2 ^ 63" and "0 < now'"
    and "\<not> (\<exists>item. holds L b key item \<and> IsAlive item now)"
    and "stores L key (NewItem (StringValue v) ttl now') d"
  shows "Get L key t (snd (Set L key v ttl now now' b)) =
           (if t < now' + uint ttl * 1000000000 then Inr v else Inl KeyNotExistsError)"
proof -
  from assms(4) obtain err where err: "getItem L b key now = Inl err"
    using not_alive_getItem by blast
  have "Set L key v ttl now now' b = (None, insert_key key d b)"
    using assms(5) by (simp add: Set_not_alive [OF err] db_Update_saveItem_ok)
  moreover have "holds L (insert_key key d b) key (NewItem (StringValue v) ttl now')"
    using assms(5) by (simp add: holds_insert_key stores_def)
  ultimately show ?thesis
    using IsAlive_NewItem_in_range [OF assms(1-3), of "StringValue v" t]
    by (auto simp: Get_def getItem_alive getItem_dead CastString_def NewItem_def)
qed

lemma Expire_frame:
  assumes "holds L b key item" and "IsAlive item now"
    and "stores L key \<lparr>Value = Value item, ExpireTime = getExpireTime ttl now'\<rparr> d"
  shows "Expire L key ttl now now' b = (None, insert_key key d b)"
    and "holds L (insert_key key d b) key \<lparr>Value = Value item, ExpireTime = getExpireTime ttl now'\<rparr>"
    and "k \<noteq> key \<Longrightarrow> bucket_Get (insert_key key d b) k = bucket_Get b k"
proof -
  have eq: "item\<lparr>ExpireTime := getExpireTime ttl now'\<rparr>
      = \<lparr>Value = Value item, ExpireTime = getExpireTime ttl now'\<rparr>" by simp
  show "Expire L key ttl now now' b = (None, insert_key key d b)"
    unfolding Expire_alive [OF assms(1,2)] eq using assms(3) by (rule db_Update_saveItem_ok)
  from assms(3) show "holds L (insert_key key d b) key \<lparr>Value = Value item, ExpireTime = getExpireTime ttl now'\<rparr>"
    by (simp add: holds_insert_key stores_def)
  show "k \<noteq> key \<Longrightarrow> bucket_Get (insert_key key d b) k = bucket_Get b k"
    by (simp add: bucket_Get_insert_key)
qed

lemma Expire_KeyNotExists:
  "bucket_Get b key = None \<or> (\<exists>item. holds L b key item \<and> \<not> IsAlive item now) \<Longrightarrow>
     Expire L key ttl now now' b = (Some KeyNotExistsError, b)"
  by (simp add: Expire_not_alive not_there_getItem)

section \<open>The properties of the storage\<close>

text \<open>
  Claim C1: for every key, value and ttl \<open>t > 0\<close>, \<open>Set\<close> creates an Item that expires
  \<open>t\<close> seconds after its creation, and \<open>Get\<close> returns the value at every instant
  before that and \<open>KeyNotExistsError\<close> from then on. The liveness rule is the definition
  of \<open>IsAlive\<close>, and lemma \<open>Set_Get_in_range\<close> above proves the rest for every ttl
  whose nanoseconds fit an int64 (\<open>ttl * 10^9 < 2^63\<close>). For a larger ttl the product
  \<open>time.Duration(ttl) * time.Second\<close> wraps around. At \<open>ttl = 9223372037\<close> the
  expiration instant lies 9223372036.709551616 seconds before the creation instant, whatever
  the clock says; the Item that \<open>Set\<close> stores is dead at once, and \<open>Get\<close> at the very
  instant of creation returns \<open>KeyNotExistsError\<close>.
\<close>

theorem ttl_overflow_Set:
  "getExpireTime 9223372037 now = now - 9223372036709551616 \<and>
   Set plain ''k'' ''v'' 9223372037 year2025 year2025 [] =
     (None, [(''k'', Some \<lparr>Value = StringValue ''v'', ExpireTime = 54676627963290448384\<rparr>)]) \<and>
   Get plain ''k'' year2025
     [(''k'', Some \<lparr>Value = StringValue ''v'', ExpireTime = 54676627963290448384\<rparr>)] =
     Inl KeyNotExistsError"
  by (simp add: getExpireTime_def Add_def Second_def Set_def Get_def db_Update_def getItem_def
      bucket_Get_def saveItem_def bucket_Put_def plain_def NewItem_def IsAlive_def IsZero_def
      After_def)




text \<open>
  Claim C3, for the writes that bolt accepts. \<open>Set\<close> returns \<open>KeyAlreadyExistsError\<close>
  exactly when the key holds an alive Item, and so does \<open>HashCreate\<close>, whatever the
  libraries do. With gob as the lossless codec that \<open>gob_bolt\<close> describes: when the key
  holds no alive Item (it is absent, its Item is dead, or its record does not decode) and
  bolt's \<open>Put\<close> accepts the write (it refuses a blank key, a key of more than 32768 bytes
  and a record that is too large), \<open>Set\<close> returns no error and puts the record of a new
  string Item with the given value and ttl under the key, in the place of whatever record
  was there; \<open>HashCreate\<close> does the same with a new Item holding the empty hash. (Lemmas
  \<open>Set_creates\<close> and \<open>HashCreate_creates\<close> above state it for every library that stores
  the Item.)
\<close>

theorem create_fails_iff_alive:
  "(fst (Set L key v ttl now now' b) = Some KeyAlreadyExistsError
      \<longleftrightarrow> (\<exists>item. holds L b key item \<and> IsAlive item now)) \<and>
   (fst (HashCreate L key ttl now now' b) = Some KeyAlreadyExistsError
      \<longleftrightarrow> (\<exists>item. holds L b key item \<and> IsAlive item now)) \<and>
   (\<not> (\<exists>item. holds (gob_bolt refuses) c key item \<and> IsAlive item now) \<and>
      \<not> refuses key (Some (NewItem (StringValue v) ttl now')) \<longrightarrow>
        Set (gob_bolt refuses) key v ttl now now' c =
          (None, insert_key key (Some (NewItem (StringValue v) ttl now')) c) \<and>
        holds (gob_bolt refuses) (insert_key key (Some (NewItem (StringValue v) ttl now')) c) key
          (NewItem (StringValue v) ttl now')) \<and>
   (\<not> (\<exists>item. holds (gob_bolt refuses) c key item \<and> IsAlive item now) \<and>
      \<not> refuses key (Some (NewItem (HashValue Map.empty) ttl now')) \<longrightarrow>
        HashCreate (gob_bolt refuses) key ttl now now' c =
          (None, insert_key key (Some (NewItem (HashValue Map.empty) ttl now')) c) \<and>
        holds (gob_bolt refuses) (insert_key key (Some (NewItem (HashValue Map.empty) ttl now')) c)
          key (NewItem (HashValue Map.empty) ttl now'))"
proof (intro conjI impI)
  show "fst (Set L key v ttl now now' b) = Some KeyAlreadyExistsError
      \<longleftrightarrow> (\<exists>item. holds L b key item \<and> IsAlive item now)"
  proof (cases "\<exists>item. holds L b key item \<and> IsAlive item now")
    case True
    then obtain item where "holds L b key item" "IsAlive item now" by blast
    then have "Set L key v ttl now now' b = (Some KeyAlreadyExistsError, b)" by (rule Set_alive)
    with True show ?thesis by simp
  next
    case False
    then obtain err where err: "getItem L b key now = Inl err"
      using not_alive_getItem by blast
    have "fst (Set L key v ttl now now' b) \<noteq> Some KeyAlreadyExistsError"
      unfolding Set_not_alive [OF err] by (rule db_Update_saveItem_error)
    with False show ?thesis by simp
  qed
  show "fst (HashCreate L key ttl now now' b) = Some KeyAlreadyExistsError
      \<longleftrightarrow> (\<exists>item. holds L b key item \<and> IsAlive item now)"
  proof (cases "\<exists>item. holds L b key item \<and> IsAlive item now")
    case True
    then obtain item where "holds L b key item" "IsAlive item now" by blast
    then have "HashCreate L key ttl now now' b = (Some KeyAlreadyExistsError, b)"
      by (rule HashCreate_alive)
    with True show ?thesis by simp
  next
    case False
    then obtain err where err: "getItem L b key now = Inl err"
      using not_alive_getItem by blast
    have "fst (HashCreate L key ttl now now' b) \<noteq> Some KeyAlreadyExistsError"
      unfolding HashCreate_not_alive [OF err] by (rule db_Update_saveItem_error)
    with False show ?thesis by simp
  qed
next
  let ?item = "NewItem (StringValue v) ttl now'"
  assume a: "\<not> (\<exists>item. holds (gob_bolt refuses) c key item \<and> IsAlive item now) \<and>
      \<not> refuses key (Some ?item)"
  then have "stores (gob_bolt refuses) key ?item (Some ?item)" by (simp add: stores_gob_bolt)
  with a show "Set (gob_bolt refuses) key v ttl now now' c = (None, insert_key key (Some ?item) c)"
    and "holds (gob_bolt refuses) (insert_key key (Some ?item) c) key ?item"
    by (blast intro: Set_creates)+
next
  let ?hash = "NewItem (HashValue Map.empty) ttl now'"
  assume a: "\<not> (\<exists>item. holds (gob_bolt refuses) c key item \<and> IsAlive item now) \<and>
      \<not> refuses key (Some ?hash)"
  then have "stores (gob_bolt refuses) key ?hash (Some ?hash)" by (simp add: stores_gob_bolt)
  with a show "HashCreate (gob_bolt refuses) key ttl now now' c =
      (None, insert_key key (Some ?hash) c)"
    and "holds (gob_bolt refuses) (insert_key key (Some ?hash) c) key ?hash"
    by (blast intro: HashCreate_creates)+
qed

text \<open>
  An instance: \<open>Set\<close> of an absent key, \<open>Set\<close> of the key it has just created, and
  \<open>HashCreate\<close> over a string Item that expired a nanosecond before.
\<close>

theorem create_fails_iff_alive_witness:
  "Set (gob_bolt (\<lambda>key data. key = [])) ''a'' ''1'' 0 year2025 year2025 [] =
     (None, [(''a'', Some \<lparr>Value = StringValue ''1'', ExpireTime = 0\<rparr>)]) \<and>
   fst (Set plain ''a'' ''2'' 0 (year2025 + 1) (year2025 + 1)
     [(''a'', Some \<lparr>Value = StringValue ''1'', ExpireTime = 0\<rparr>)]) = Some KeyAlreadyExistsError \<and>
   HashCreate (gob_bolt (\<lambda>key data. key = [])) ''a'' 0 (year2025 + 4) (year2025 + 4)
     [(''a'', Some \<lparr>Value = StringValue ''1'', ExpireTime = year2025 + 3\<rparr>)] =
     (None, [(''a'', Some \<lparr>Value = HashValue Map.empty, ExpireTime = 0\<rparr>)])"
proof -
  let ?L = "gob_bolt (\<lambda>key data. key = [])"
  let ?one = "\<lparr>Value = StringValue ''1'', ExpireTime = 0\<rparr>"
  let ?old = "\<lparr>Value = StringValue ''1'', ExpireTime = year2025 + 3\<rparr>"
  let ?new = "\<lparr>Value = HashValue Map.empty, ExpireTime = 0\<rparr>"
  have absent: "\<not> (\<exists>item. holds ?L [] ''a'' item \<and> IsAlive item year2025)"
    by (simp add: holds_def bucket_Get_def)
  have ok: "\<not> (\<lambda>key data. key = []) ''a'' (Some (NewItem (StringValue ''1'') 0 year2025))"
    and ok': "\<not> (\<lambda>key data. key = []) ''a'' (Some (NewItem (HashValue Map.empty) 0 (year2025 + 4)))"
    by simp_all
  have alive: "\<exists>item. holds plain [(''a'', Some ?one)] ''a'' item \<and> IsAlive item (year2025 + 1)"
    by (rule exI [of _ ?one]) (simp add: holds_def bucket_Get_def plain_def IsAlive_def IsZero_def)
  have dead: "\<not> (\<exists>item. holds ?L [(''a'', Some ?old)] ''a'' item \<and> IsAlive item (year2025 + 4))"
    by (simp add: holds_def bucket_Get_def gob_bolt_def IsAlive_def IsZero_def After_def)
  from absent ok
  have "Set ?L ''a'' ''1'' 0 year2025 year2025 []
      = (None, insert_key ''a'' (Some (NewItem (StringValue ''1'') 0 year2025)) [])"
    using create_fails_iff_alive [where refuses = "\<lambda>key data. key = []" and c = "[]"
        and key = "''a''" and now = year2025 and now' = year2025 and v = "''1''" and ttl = 0]
    by blast
  moreover from alive
  have "fst (Set plain ''a'' ''2'' 0 (year2025 + 1) (year2025 + 1) [(''a'', Some ?one)])
      = Some KeyAlreadyExistsError"
    using create_fails_iff_alive [where L = plain and b = "[(''a'', Some ?one)]" and key = "''a''"
        and now = "year2025 + 1" and now' = "year2025 + 1" and v = "''2''" and ttl = 0]
    by blast
  moreover from dead ok'
  have "HashCreate ?L ''a'' 0 (year2025 + 4) (year2025 + 4) [(''a'', Some ?old)]
      = (None, insert_key ''a'' (Some (NewItem (HashValue Map.empty) 0 (year2025 + 4)))
           [(''a'', Some ?old)])"
    using create_fails_iff_alive [where refuses = "\<lambda>key data. key = []"
        and c = "[(''a'', Some ?old)]" and key = "''a''"
        and now = "year2025 + 4" and now' = "year2025 + 4" and ttl = 0]
    by blast
  ultimately show ?thesis by (simp add: NewItem_def getExpireTime_def)
qed

text \<open>
  Claim C3 as it is worded promises success on every key that holds no alive Item. The
  blank key never holds one, and bolt's \<open>Put\<close> refuses it (as it refuses a key of more
  than 32768 bytes): \<open>saveItem\<close> hands the error on, and \<open>Set\<close> and \<open>HashCreate\<close>
  return it and create nothing.
\<close>

theorem create_blank_key_counterexample:
  "bucket_Get ([] :: Item option bucket) [] = None \<and>
   Set plain [] ''v'' 0 year2025 year2025 [] = (Some boltError, []) \<and>
   HashCreate plain [] 0 year2025 year2025 [] = (Some boltError, [])"
  by (simp add: run_defs)

text \<open>
  Claim C4: each of the seven list operations returns \<open>notSupportedError\<close> for every
  key and every argument, whatever the bucket holds, and leaves the bucket as it was.
\<close>

theorem list_operations_not_supported:
  "exec L (CallListCreate key ttl) c b = (Failed notSupportedError, b) \<and>
   exec L (CallListLeftPop key) c b = (Failed notSupportedError, b) \<and>
   exec L (CallListRightPop key) c b = (Failed notSupportedError, b) \<and>
   exec L (CallListLeftPush key v) c b = (Failed notSupportedError, b) \<and>
   exec L (CallListRightPush key v) c b = (Failed notSupportedError, b) \<and>
   exec L (CallListLen key) c b = (Failed notSupportedError, b) \<and>
   exec L (CallListRange key start stop) c b = (Failed notSupportedError, b)"
  by (simp add: of_error_def of_value_def ListCreate_def ListLeftPop_def ListRightPop_def
      ListLeftPush_def ListRightPush_def ListLen_def ListRange_def)

text \<open>
  Claim C5: one turn of the sweep over an ordered bucket. If some record does not decode,
  the bucket is left as it was. Otherwise the scan returns no error and collects exactly the
  keys of the records whose Item fails the liveness check when the scan visits them, and the
  bucket afterwards is the old one without exactly those records. In both cases a key whose
  Item is alive when the scan visits it keeps its record.
\<close>

theorem sweep_deletes_exactly_the_expired:
  assumes "ordered b"
  shows "(if \<exists>r\<in>set b. Decode L (snd r) = None then gc_cycle L now b = b
          else gc_scan L now b [] = (None, map fst (filter (expired L now) b)) \<and>
               gc_cycle L now b = filter (\<lambda>r. \<not> expired L now r) b) \<and>
         (holds L b key item \<and> IsAlive item (now key) \<longrightarrow>
            bucket_Get (gc_cycle L now b) key = bucket_Get b key)"
proof (intro conjI impI)
  show "if \<exists>r\<in>set b. Decode L (snd r) = None then gc_cycle L now b = b
        else gc_scan L now b [] = (None, map fst (filter (expired L now) b)) \<and>
             gc_cycle L now b = filter (\<lambda>r. \<not> expired L now r) b"
  proof (cases "\<exists>r\<in>set b. Decode L (snd r) = None")
    case True
    then show ?thesis by (simp add: gc_cycle_junk)
  next
    case False
    then have clean: "\<forall>r\<in>set b. Decode L (snd r) \<noteq> None" by simp
    from assms have "distinct (map fst b)" by (rule ordered_distinct)
    then have "gc_cycle L now b = filter (\<lambda>r. \<not> expired L now r) b"
      using clean by (rule gc_cycle_clean_distinct)
    moreover have "gc_scan L now b [] = (None, map fst (filter (expired L now) b))"
      using gc_scan_clean [OF clean, of now "[]"] by simp
    ultimately show ?thesis by (simp only: False if_False simp_thms)
  qed
next
  assume "holds L b key item \<and> IsAlive item (now key)"
  with assms show "bucket_Get (gc_cycle L now b) key = bucket_Get b key"
    by (blast intro: gc_cycle_keeps_alive)
qed

text \<open>
  An instance: of an immortal Item, an expired one and one that expires a nanosecond after
  the scan, the sweep deletes the second only; with a record that does not decode in the
  bucket, the expired Item stays too.
\<close>

theorem sweep_deletes_exactly_the_expired_witness:
  "gc_cycle plain (\<lambda>key. year2025 + 9)
     [(''a'', Some \<lparr>Value = StringValue ''1'', ExpireTime = 0\<rparr>),
      (''b'', Some \<lparr>Value = StringValue ''2'', ExpireTime = year2025 + 5\<rparr>),
      (''c'', Some \<lparr>Value = HashValue Map.empty, ExpireTime = year2025 + 10\<rparr>)] =
     [(''a'', Some \<lparr>Value = StringValue ''1'', ExpireTime = 0\<rparr>),
      (''c'', Some \<lparr>Value = HashValue Map.empty, ExpireTime = year2025 + 10\<rparr>)] \<and>
   gc_cycle plain (\<lambda>key. year2025 + 9)
     [(''b'', Some \<lparr>Value = StringValue ''2'', ExpireTime = year2025 + 5\<rparr>), (''z'', None)] =
     [(''b'', Some \<lparr>Value = StringValue ''2'', ExpireTime = year2025 + 5\<rparr>), (''z'', None)]"
proof -
  let ?b = "[(''a'', Some \<lparr>Value = StringValue ''1'', ExpireTime = 0\<rparr>),
      (''b'', Some \<lparr>Value = StringValue ''2'', ExpireTime = year2025 + 5\<rparr>),
      (''c'', Some \<lparr>Value = HashValue Map.empty, ExpireTime = year2025 + 10\<rparr>)]"
  let ?j = "[(''b'', Some \<lparr>Value = StringValue ''2'', ExpireTime = year2025 + 5\<rparr>),
      (''z'', None :: Item option)]"
  have "ordered ?b" and "ordered ?j" by (simp_all add: ordered_def)
  moreover have "\<not> (\<exists>r\<in>set ?b. Decode plain (snd r) = None)" by (simp add: plain_def)
  moreover have "\<exists>r\<in>set ?j. Decode plain (snd r) = None" by (simp add: plain_def)
  ultimately have "gc_cycle plain (\<lambda>key. year2025 + 9) ?b
      = filter (\<lambda>r. \<not> expired plain (\<lambda>key. year2025 + 9) r) ?b"
    and "gc_cycle plain (\<lambda>key. year2025 + 9) ?j = ?j"
    using sweep_deletes_exactly_the_expired [where L = plain and b = ?b and now = "\<lambda>key. year2025 + 9"]
      sweep_deletes_exactly_the_expired [where L = plain and b = ?j and now = "\<lambda>key. year2025 + 9"]
    by presburger+
  then show ?thesis
    by (simp add: expired_def plain_def IsAlive_def IsZero_def After_def)
qed

text \<open>
  Claim C6: when the key holds an alive Item, of whatever variant, and the libraries store
  the Item with its value replaced, \<open>Update\<close> returns no error and leaves under the key
  an Item whose value is the string \<open>v\<close> and whose expiration instant is the old one.
  \<open>Update\<close> returns \<open>KeyNotExistsError\<close> exactly when the key is absent or its Item is
  dead.
\<close>

theorem Update_overwrites_any_variant:
  "(holds L b key item \<and> IsAlive item now \<and> stores L key (item\<lparr>Value := StringValue v\<rparr>) d \<longrightarrow>
      Update L key v now b = (None, insert_key key d b) \<and>
      holds L (insert_key key d b) key \<lparr>Value = StringValue v, ExpireTime = ExpireTime item\<rparr>) \<and>
   (fst (Update L key v now b) = Some KeyNotExistsError \<longleftrightarrow>
      bucket_Get b key = None \<or> (\<exists>item. holds L b key item \<and> \<not> IsAlive item now))"
proof (cases L b key now rule: getItem_cases)
  case absent
  then show ?thesis by (simp add: Update_not_alive holds_def)
next
  case (junk data)
  then show ?thesis by (auto simp: Update_not_alive holds_def)
next
  case (dead item')
  then show ?thesis by (auto simp: Update_not_alive dest: holds_fun)
next
  case (alive item')
  have upd: "Update L key v now b =
      db_Update (\<lambda>bucket. saveItem L bucket key (item'\<lparr>Value := StringValue v\<rparr>)) b"
    using alive(1,2) by (rule Update_alive)
  have "fst (Update L key v now b) \<noteq> Some KeyNotExistsError"
    unfolding upd by (rule db_Update_saveItem_error)
  moreover have "bucket_Get b key \<noteq> None" using alive(1) by (auto simp: holds_def split: option.splits)
  moreover have "\<not> (\<exists>item. holds L b key item \<and> \<not> IsAlive item now)"
    using alive(1,2) by (auto dest: holds_fun)
  moreover have "Update L key v now b = (None, insert_key key d b) \<and>
      holds L (insert_key key d b) key \<lparr>Value = StringValue v, ExpireTime = ExpireTime item\<rparr>"
    if "holds L b key item" "stores L key (item\<lparr>Value := StringValue v\<rparr>) d"
  proof -
    from that(1) alive(1) have "item' = item" by (rule holds_fun)
    with that(2) show ?thesis
      unfolding upd by (simp add: db_Update_saveItem_ok holds_insert_key) (simp add: stores_def)
  qed
  ultimately show ?thesis by blast
qed

text \<open>
  An instance: \<open>Update\<close> turns an alive hash into a string with the same expiration
  instant, and returns \<open>KeyNotExistsError\<close> at the instant the hash expires.
\<close>

theorem Update_overwrites_any_variant_witness:
  "Update plain ''h'' ''v'' year2025
     [(''h'', Some \<lparr>Value = HashValue [''f'' \<mapsto> ''x''], ExpireTime = year2025 + 10\<rparr>)] =
     (None, [(''h'', Some \<lparr>Value = StringValue ''v'', ExpireTime = year2025 + 10\<rparr>)]) \<and>
   fst (Update plain ''h'' ''v'' (year2025 + 10)
     [(''h'', Some \<lparr>Value = HashValue [''f'' \<mapsto> ''x''], ExpireTime = year2025 + 10\<rparr>)]) =
     Some KeyNotExistsError"
proof -
  let ?old = "\<lparr>Value = HashValue [''f'' \<mapsto> ''x''], ExpireTime = year2025 + 10\<rparr>"
  let ?new = "\<lparr>Value = StringValue ''v'', ExpireTime = year2025 + 10\<rparr>"
  have h: "holds plain [(''h'', Some ?old)] ''h'' ?old"
    by (simp add: holds_def bucket_Get_def plain_def)
  have alive: "IsAlive ?old year2025" and dead: "\<not> IsAlive ?old (year2025 + 10)"
    by (simp_all add: IsAlive_def IsZero_def After_def)
  have enc: "stores plain ''h'' (?old\<lparr>Value := StringValue ''v''\<rparr>) (Some ?new)"
    by (simp add: stores_def plain_def)
  from h alive enc
  have "Update plain ''h'' ''v'' year2025 [(''h'', Some ?old)]
      = (None, insert_key ''h'' (Some ?new) [(''h'', Some ?old)])"
    using Update_overwrites_any_variant [where L = plain and b = "[(''h'', Some ?old)]"
        and key = "''h''" and item = ?old and now = year2025 and v = "''v''" and d = "Some ?new"]
    by blast
  moreover from h dead
  have "fst (Update plain ''h'' ''v'' (year2025 + 10) [(''h'', Some ?old)]) = Some KeyNotExistsError"
    using Update_overwrites_any_variant [where L = plain and b = "[(''h'', Some ?old)]"
        and key = "''h''" and now = "year2025 + 10" and v = "''v''"]
    by blast
  ultimately show ?thesis by simp
qed

text \<open>
  Claim C7, for the writes that bolt accepts. With gob as the lossless codec that
  \<open>gob_bolt\<close> describes: \<open>HashSet\<close> on a key that holds no alive Item (it is absent, its
  Item is dead, or its record does not decode) stores a new hash with the one field and no
  expiration, with no \<open>HashCreate\<close> before, when bolt's \<open>Put\<close> accepts the write (it
  refuses a blank key, a key of more than 32768 bytes and a record that is too large). On
  a key that holds an alive Item that is not a hash, \<open>HashSet\<close> returns
  \<open>KeyHashTypeError\<close> and leaves the bucket as it was, whatever the libraries do. On a key
  that holds an alive hash it stores the hash with the field set to the value and the
  expiration instant unchanged, when the libraries store that Item. (Lemma
  \<open>HashSet_creates\<close> above states the first case for every library that stores the Item.)
\<close>

theorem HashSet_creates_or_upserts:
  "(\<not> (\<exists>item. holds (gob_bolt refuses) c key item \<and> IsAlive item now) \<and>
      \<not> refuses key (Some \<lparr>Value = HashValue [field \<mapsto> v], ExpireTime = 0\<rparr>) \<longrightarrow>
        HashSet (gob_bolt refuses) key field v now now' c =
          (None, insert_key key (Some \<lparr>Value = HashValue [field \<mapsto> v], ExpireTime = 0\<rparr>) c) \<and>
        holds (gob_bolt refuses)
          (insert_key key (Some \<lparr>Value = HashValue [field \<mapsto> v], ExpireTime = 0\<rparr>) c) key
          \<lparr>Value = HashValue [field \<mapsto> v], ExpireTime = 0\<rparr>) \<and>
   (holds L b key item \<and> IsAlive item now \<and> (\<forall>h. Value item \<noteq> HashValue h) \<longrightarrow>
        HashSet L key field v now now' b = (Some KeyHashTypeError, b)) \<and>
   (holds L b key item \<and> IsAlive item now \<and> Value item = HashValue h \<and>
      stores L key \<lparr>Value = HashValue (h(field \<mapsto> v)), ExpireTime = ExpireTime item\<rparr> d' \<longrightarrow>
        HashSet L key field v now now' b = (None, insert_key key d' b) \<and>
        holds L (insert_key key d' b) key
          \<lparr>Value = HashValue (h(field \<mapsto> v)), ExpireTime = ExpireTime item\<rparr>)"
proof (intro conjI impI)
  let ?fresh = "\<lparr>Value = HashValue [field \<mapsto> v], ExpireTime = 0\<rparr>"
  assume a: "\<not> (\<exists>item. holds (gob_bolt refuses) c key item \<and> IsAlive item now) \<and>
      \<not> refuses key (Some ?fresh)"
  then have "stores (gob_bolt refuses) key ?fresh (Some ?fresh)" by (simp add: stores_gob_bolt)
  with a show "HashSet (gob_bolt refuses) key field v now now' c =
      (None, insert_key key (Some ?fresh) c)"
    and "holds (gob_bolt refuses) (insert_key key (Some ?fresh) c) key ?fresh"
    by (blast intro: HashSet_creates)+
next
  assume "holds L b key item \<and> IsAlive item now \<and> (\<forall>h. Value item \<noteq> HashValue h)"
  then show "HashSet L key field v now now' b = (Some KeyHashTypeError, b)"
    by (blast intro: HashSet_alive_other)
next
  assume a: "holds L b key item \<and> IsAlive item now \<and> Value item = HashValue h \<and>
      stores L key \<lparr>Value = HashValue (h(field \<mapsto> v)), ExpireTime = ExpireTime item\<rparr> d'"
  then show "HashSet L key field v now now' b = (None, insert_key key d' b)"
    and "holds L (insert_key key d' b) key
          \<lparr>Value = HashValue (h(field \<mapsto> v)), ExpireTime = ExpireTime item\<rparr>"
    by (blast intro: HashSet_upserts)+
qed

text \<open>
  An instance of each of the three cases.
\<close>

theorem HashSet_creates_or_upserts_witness:
  "HashSet (gob_bolt (\<lambda>key data. key = [])) ''h'' ''f'' ''x'' year2025 year2025 [] =
     (None, [(''h'', Some \<lparr>Value = HashValue [''f'' \<mapsto> ''x''], ExpireTime = 0\<rparr>)]) \<and>
   HashSet plain ''s'' ''f'' ''x'' year2025 year2025
     [(''s'', Some \<lparr>Value = StringValue ''v'', ExpireTime = 0\<rparr>)] =
     (Some KeyHashTypeError, [(''s'', Some \<lparr>Value = StringValue ''v'', ExpireTime = 0\<rparr>)]) \<and>
   HashSet plain ''h'' ''g'' ''y'' year2025 year2025
     [(''h'', Some \<lparr>Value = HashValue [''f'' \<mapsto> ''x''], ExpireTime = year2025 + 10\<rparr>)] =
     (None, [(''h'', Some \<lparr>Value = HashValue [''f'' \<mapsto> ''x'', ''g'' \<mapsto> ''y''],
                              ExpireTime = year2025 + 10\<rparr>)])"
proof -
  let ?fresh = "\<lparr>Value = HashValue [''f'' \<mapsto> ''x''], ExpireTime = 0\<rparr>"
  let ?str = "\<lparr>Value = StringValue ''v'', ExpireTime = 0\<rparr>"
  let ?old = "\<lparr>Value = HashValue [''f'' \<mapsto> ''x''], ExpireTime = year2025 + 10\<rparr>"
  let ?new = "\<lparr>Value = HashValue [''f'' \<mapsto> ''x'', ''g'' \<mapsto> ''y''], ExpireTime = year2025 + 10\<rparr>"
  have absent: "\<not> (\<exists>item. holds (gob_bolt (\<lambda>key data. key = [])) [] ''h'' item \<and>
      IsAlive item year2025)"
    by (simp add: holds_def bucket_Get_def)
  have ok: "\<not> (\<lambda>key data. key = []) ''h'' (Some ?fresh)"
    by simp
  have s: "holds plain [(''s'', Some ?str)] ''s'' ?str \<and> IsAlive ?str year2025 \<and>
      (\<forall>h. Value ?str \<noteq> HashValue h)"
    by (simp add: holds_def bucket_Get_def plain_def IsAlive_def IsZero_def)
  have h: "holds plain [(''h'', Some ?old)] ''h'' ?old \<and> IsAlive ?old year2025 \<and>
      Value ?old = HashValue [''f'' \<mapsto> ''x''] \<and>
      stores plain ''h'' \<lparr>Value = HashValue [''f'' \<mapsto> ''x'', ''g'' \<mapsto> ''y''],
        ExpireTime = ExpireTime ?old\<rparr> (Some ?new)"
    by (simp add: holds_def bucket_Get_def plain_def IsAlive_def IsZero_def After_def stores_def)
  from absent ok
  have "HashSet (gob_bolt (\<lambda>key data. key = [])) ''h'' ''f'' ''x'' year2025 year2025 []
      = (None, insert_key ''h'' (Some ?fresh) [])"
    using HashSet_creates_or_upserts [where refuses = "\<lambda>key data. key = []" and c = "[]"
        and key = "''h''" and field = "''f''" and v = "''x''" and now = year2025 and now' = year2025,
        THEN conjunct1]
    by blast
  moreover from s
  have "HashSet plain ''s'' ''f'' ''x'' year2025 year2025 [(''s'', Some ?str)]
      = (Some KeyHashTypeError, [(''s'', Some ?str)])"
    using HashSet_creates_or_upserts [where L = plain and b = "[(''s'', Some ?str)]" and key = "''s''"
        and field = "''f''" and v = "''x''" and now = year2025 and now' = year2025 and item = ?str]
    by blast
  moreover from h
  have "HashSet plain ''h'' ''g'' ''y'' year2025 year2025 [(''h'', Some ?old)]
      = (None, insert_key ''h'' (Some ?new) [(''h'', Some ?old)])"
    using HashSet_creates_or_upserts [where L = plain and b = "[(''h'', Some ?old)]" and key = "''h''"
        and field = "''g''" and v = "''y''" and now = year2025 and now' = year2025 and item = ?old
        and h = "[''f'' \<mapsto> ''x'']" and d' = "Some ?new"]
    by blast
  ultimately show ?thesis by simp
qed

text \<open>
  Claim C7 as it is worded has \<open>HashSet\<close> create a hash on every absent key. On the blank
  key bolt's \<open>Put\<close> refuses the write: \<open>HashSet\<close> returns the engine's error and there is
  no hash afterwards.
\<close>

theorem HashSet_blank_key_counterexample:
  "bucket_Get ([] :: Item option bucket) [] = None \<and>
   HashSet plain [] ''f'' ''x'' year2025 year2025 [] = (Some boltError, []) \<and>
   HashGetAll plain [] (year2025 + 1)
     (snd (HashSet plain [] ''f'' ''x'' year2025 year2025 [])) = Inl KeyNotExistsError"
  by (simp add: run_defs)

text \<open>
  Claim C8: \<open>Expire\<close> on an alive key sets the expiration instant to ttl seconds from
  now and changes nothing else; on an absent or dead key it returns \<open>KeyNotExistsError\<close>
  and changes nothing. Lemmas \<open>Expire_frame\<close> and \<open>Expire_KeyNotExists\<close> above prove
  the frame and the error case for every ttl, and with \<open>getExpireTime_in_range\<close> and
  \<open>getExpireTime_zero\<close> the new expiration instant for ttl 0 and for every ttl whose
  nanoseconds fit an int64. For a larger ttl \<open>getExpireTime\<close> wraps around, as in claim
  C1: \<open>Expire\<close> with \<open>ttl = 9223372037\<close> on an immortal Item sets an expiration instant
  some 292 years in the past, and \<open>Get\<close> at the same instant returns
  \<open>KeyNotExistsError\<close>.
\<close>

theorem ttl_overflow_Expire:
  "Expire plain ''k'' 9223372037 year2025 year2025
     [(''k'', Some \<lparr>Value = StringValue ''v'', ExpireTime = 0\<rparr>)] =
     (None, [(''k'', Some \<lparr>Value = StringValue ''v'', ExpireTime = 54676627963290448384\<rparr>)]) \<and>
   Get plain ''k'' year2025
     [(''k'', Some \<lparr>Value = StringValue ''v'', ExpireTime = 54676627963290448384\<rparr>)] =
     Inl KeyNotExistsError"
  by (simp add: getExpireTime_def Add_def Second_def Expire_def Get_def db_Update_def getItem_def
      bucket_Get_def saveItem_def bucket_Put_def plain_def SetTTL_def IsAlive_def IsZero_def
      After_def)

text \<open>
  The order of the two checks. On a key that is absent or whose Item is dead, \<open>Get\<close>,
  \<open>HashGet\<close>, \<open>HashGetAll\<close>, \<open>HashDelete\<close>, \<open>HashLen\<close> and \<open>HashKeys\<close> return
  \<open>KeyNotExistsError\<close>, whatever the variant of the stored Item. And every call of the
  interface, \<open>HashSet\<close> among them, returns \<open>KeyStringTypeError\<close> or
  \<open>KeyHashTypeError\<close> only when its key holds an alive Item of another variant; none
  returns \<open>KeyListTypeError\<close>.
\<close>

lemma liveness_check_before_type_check:
  "(bucket_Get b key = None \<or> (\<exists>item. holds L b key item \<and> \<not> IsAlive item now) \<longrightarrow>
      Get L key now b = Inl KeyNotExistsError \<and>
      HashGet L key field now b = Inl KeyNotExistsError \<and>
      HashGetAll L key now b = Inl KeyNotExistsError \<and>
      HashDelete L key field now b = (Some KeyNotExistsError, b) \<and>
      HashLen L key now b = Inl KeyNotExistsError \<and>
      HashKeys L key now b = Inl KeyNotExistsError) \<and>
   (fst (exec L cmd c b) = Failed KeyStringTypeError \<longrightarrow>
      (\<exists>k item. key_of cmd = Some k \<and> holds L b k item \<and> IsAlive item (at_check c) \<and>
                (\<forall>s. Value item \<noteq> StringValue s))) \<and>
   (fst (exec L cmd c b) = Failed KeyHashTypeError \<longrightarrow>
      (\<exists>k item. key_of cmd = Some k \<and> holds L b k item \<and> IsAlive item (at_check c) \<and>
                (\<forall>h. Value item \<noteq> HashValue h))) \<and>
   fst (exec L cmd c b) \<noteq> Failed KeyListTypeError"
proof -
  have "Get L key now b = Inl KeyNotExistsError \<and>
      HashGet L key field now b = Inl KeyNotExistsError \<and>
      HashGetAll L key now b = Inl KeyNotExistsError \<and>
      HashDelete L key field now b = (Some KeyNotExistsError, b) \<and>
      HashLen L key now b = Inl KeyNotExistsError \<and>
      HashKeys L key now b = Inl KeyNotExistsError"
    if "bucket_Get b key = None \<or> (\<exists>item. holds L b key item \<and> \<not> IsAlive item now)"
  proof -
    from that have g: "getItem L b key now = Inl KeyNotExistsError" by (rule not_there_getItem)
    then have "getHash L b key now = Inl KeyNotExistsError" by (rule getHash_KeyNotExists)
    with g show ?thesis
      by (simp add: Get_def HashGet_def HashGetAll_def HashLen_def HashKeys_def HashDelete_not_alive)
  qed
  then show ?thesis
    using exec_string_mismatch [of L cmd c b] exec_hash_mismatch [of L cmd c b]
      exec_no_list_mismatch [of L cmd c b] by blast
qed

text \<open>
  An instance: \<open>HashGet\<close> on a string Item, after its expiry and before.
\<close>

lemma liveness_check_before_type_check_instance:
  "HashGet plain ''s'' ''f'' (year2025 + 2)
     [(''s'', Some \<lparr>Value = StringValue ''v'', ExpireTime = year2025 + 1\<rparr>)] =
     Inl KeyNotExistsError \<and>
   fst (exec plain (CallHashGet ''s'' ''f'') (clock_at year2025)
     [(''s'', Some \<lparr>Value = StringValue ''v'', ExpireTime = year2025 + 1\<rparr>)]) =
     Failed KeyHashTypeError \<and>
   (\<exists>k item. key_of (CallHashGet ''s'' ''f'') = Some k \<and>
      holds plain [(''s'', Some \<lparr>Value = StringValue ''v'', ExpireTime = year2025 + 1\<rparr>)] k item \<and>
      IsAlive item (at_check (clock_at year2025)) \<and> (\<forall>h. Value item \<noteq> HashValue h)) \<and>
   fst (exec plain (CallGet ''h'') (clock_at year2025)
     [(''h'', Some \<lparr>Value = HashValue Map.empty, ExpireTime = 0\<rparr>)]) =
     Failed KeyStringTypeError \<and>
   (\<exists>k item. key_of (CallGet ''h'') = Some k \<and>
      holds plain [(''h'', Some \<lparr>Value = HashValue Map.empty, ExpireTime = 0\<rparr>)] k item \<and>
      IsAlive item (at_check (clock_at year2025)) \<and> (\<forall>s. Value item \<noteq> StringValue s))"
proof -
  let ?str = "\<lparr>Value = StringValue ''v'', ExpireTime = year2025 + 1\<rparr>"
  let ?hash = "\<lparr>Value = HashValue Map.empty, ExpireTime = 0\<rparr>"
  have dead: "bucket_Get [(''s'', Some ?str)] ''s'' = None \<or>
      (\<exists>item. holds plain [(''s'', Some ?str)] ''s'' item \<and> \<not> IsAlive item (year2025 + 2))"
    by (rule disjI2, rule exI [of _ ?str])
       (simp add: holds_def bucket_Get_def plain_def IsAlive_def IsZero_def After_def)
  have mism: "fst (exec plain (CallHashGet ''s'' ''f'') (clock_at year2025) [(''s'', Some ?str)])
      = Failed KeyHashTypeError"
    by (simp add: run_defs)
  have mism': "fst (exec plain (CallGet ''h'') (clock_at year2025) [(''h'', Some ?hash)])
      = Failed KeyStringTypeError"
    by (simp add: run_defs)
  from dead have "HashGet plain ''s'' ''f'' (year2025 + 2) [(''s'', Some ?str)] = Inl KeyNotExistsError"
    using liveness_check_before_type_check [where L = plain and b = "[(''s'', Some ?str)]"
        and key = "''s''" and now = "year2025 + 2" and field = "''f''"]
    by blast
  moreover from mism
  have "\<exists>k item. key_of (CallHashGet ''s'' ''f'') = Some k \<and>
      holds plain [(''s'', Some ?str)] k item \<and>
      IsAlive item (at_check (clock_at year2025)) \<and> (\<forall>h. Value item \<noteq> HashValue h)"
    using liveness_check_before_type_check [where L = plain and b = "[(''s'', Some ?str)]"
        and cmd = "CallHashGet ''s'' ''f''" and c = "clock_at year2025"]
    by blast
  moreover from mism'
  have "\<exists>k item. key_of (CallGet ''h'') = Some k \<and>
      holds plain [(''h'', Some ?hash)] k item \<and>
      IsAlive item (at_check (clock_at year2025)) \<and> (\<forall>s. Value item \<noteq> StringValue s)"
    using liveness_check_before_type_check [where L = plain and b = "[(''h'', Some ?hash)]"
        and cmd = "CallGet ''h''" and c = "clock_at year2025"]
    by blast
  ultimately show ?thesis using mism mism' by blast
qed

text \<open>
  Claim C9: in every operation the liveness check comes before the type check, so that on
  a key that is absent or whose Item is dead the operation returns \<open>KeyNotExistsError\<close>.
  The lemma above proves it for the six operations it names. \<open>HashSet\<close>, whose comment
  in the source says that an error will occur if the key does not exist, puts a new hash
  in the place of the error of \<open>getItem\<close>: on a key that holds a string Item dead for a
  second, and on a key that was never created, it returns no error and stores a hash with
  no expiration, where \<open>HashDelete\<close> on the same dead key returns
  \<open>KeyNotExistsError\<close>.
\<close>

theorem HashSet_dead_key_returns_nil:
  "\<not> IsAlive \<lparr>Value = StringValue ''s'', ExpireTime = year2025 + 1000000000\<rparr> (year2025 + 2000000000) \<and>
   HashSet plain ''k'' ''f'' ''v'' (year2025 + 2000000000) (year2025 + 2000000000)
     [(''k'', Some \<lparr>Value = StringValue ''s'', ExpireTime = year2025 + 1000000000\<rparr>)] =
     (None, [(''k'', Some \<lparr>Value = HashValue [''f'' \<mapsto> ''v''], ExpireTime = 0\<rparr>)]) \<and>
   HashSet plain ''k'' ''f'' ''v'' year2025 year2025 [] =
     (None, [(''k'', Some \<lparr>Value = HashValue [''f'' \<mapsto> ''v''], ExpireTime = 0\<rparr>)]) \<and>
   HashDelete plain ''k'' ''f'' (year2025 + 2000000000)
     [(''k'', Some \<lparr>Value = StringValue ''s'', ExpireTime = year2025 + 1000000000\<rparr>)] =
     (Some KeyNotExistsError,
      [(''k'', Some \<lparr>Value = StringValue ''s'', ExpireTime = year2025 + 1000000000\<rparr>)])"
  by (simp add: run_defs)

text \<open>
  Claim C10: a call of the interface that returns an error leaves the bucket as it was.
  In particular \<open>Delete\<close> on a key whose Item is dead returns \<open>KeyNotExistsError\<close> and
  the record stays, until a sweep in which every record decodes removes it; and
  \<open>HashDelete\<close> of a field that an alive hash does not have returns
  \<open>FieldNotExistError\<close> and leaves the bucket as it was.
\<close>

theorem failed_operation_changes_nothing:
  "(fst (exec L cmd c b) = Failed err \<longrightarrow> snd (exec L cmd c b) = b) \<and>
   (holds L b key item \<and> \<not> IsAlive item now \<longrightarrow>
      Delete L key now b = (Some KeyNotExistsError, b)) \<and>
   (holds L b key item \<and> IsAlive item now \<and> Value item = HashValue h \<and> h field = None \<longrightarrow>
      HashDelete L key field now b = (Some FieldNotExistError, b)) \<and>
   ((\<forall>r\<in>set b. Decode L (snd r) \<noteq> None) \<and> holds L b key item \<and> \<not> IsAlive item (scan key) \<longrightarrow>
      bucket_Get (gc_cycle L scan b) key = None)"
proof (intro conjI impI)
  assume "fst (exec L cmd c b) = Failed err"
  then show "snd (exec L cmd c b) = b" by (rule exec_Failed_unchanged)
next
  assume "holds L b key item \<and> \<not> IsAlive item now"
  then have "getItem L b key now = Inl KeyNotExistsError" by (blast intro: getItem_dead)
  then show "Delete L key now b = (Some KeyNotExistsError, b)" by (rule Delete_not_alive)
next
  assume "holds L b key item \<and> IsAlive item now \<and> Value item = HashValue h \<and> h field = None"
  then show "HashDelete L key field now b = (Some FieldNotExistError, b)"
    by (blast intro: HashDelete_alive_no_field)
next
  assume "(\<forall>r\<in>set b. Decode L (snd r) \<noteq> None) \<and> holds L b key item \<and> \<not> IsAlive item (scan key)"
  then show "bucket_Get (gc_cycle L scan b) key = None"
    by (blast intro: gc_cycle_removes_dead)
qed

text \<open>
  An instance: \<open>Delete\<close> of a dead key, \<open>HashDelete\<close> of a missing field, and the
  sweep that removes the dead record.
\<close>

theorem failed_operation_changes_nothing_witness:
  "exec plain (CallDelete ''k'') (clock_at (year2025 + 2))
     [(''k'', Some \<lparr>Value = StringValue ''v'', ExpireTime = year2025 + 1\<rparr>)] =
     (Failed KeyNotExistsError, [(''k'', Some \<lparr>Value = StringValue ''v'', ExpireTime = year2025 + 1\<rparr>)]) \<and>
   Delete plain ''k'' (year2025 + 2)
     [(''k'', Some \<lparr>Value = StringValue ''v'', ExpireTime = year2025 + 1\<rparr>)] =
     (Some KeyNotExistsError, [(''k'', Some \<lparr>Value = StringValue ''v'', ExpireTime = year2025 + 1\<rparr>)]) \<and>
   HashDelete plain ''h'' ''missing'' year2025
     [(''h'', Some \<lparr>Value = HashValue [''f'' \<mapsto> ''x''], ExpireTime = 0\<rparr>)] =
     (Some FieldNotExistError, [(''h'', Some \<lparr>Value = HashValue [''f'' \<mapsto> ''x''], ExpireTime = 0\<rparr>)]) \<and>
   bucket_Get (gc_cycle plain (\<lambda>key. year2025 + 2)
     [(''k'', Some \<lparr>Value = StringValue ''v'', ExpireTime = year2025 + 1\<rparr>)]) ''k'' = None"
proof -
  let ?str = "\<lparr>Value = StringValue ''v'', ExpireTime = year2025 + 1\<rparr>"
  let ?hash = "\<lparr>Value = HashValue [''f'' \<mapsto> ''x''], ExpireTime = 0\<rparr>"
  have failed: "fst (exec plain (CallDelete ''k'') (clock_at (year2025 + 2)) [(''k'', Some ?str)])
      = Failed KeyNotExistsError"
    by (simp add: run_defs)
  have dead: "holds plain [(''k'', Some ?str)] ''k'' ?str \<and> \<not> IsAlive ?str (year2025 + 2)"
    by (simp add: holds_def bucket_Get_def plain_def IsAlive_def IsZero_def After_def)
  have hash: "holds plain [(''h'', Some ?hash)] ''h'' ?hash \<and> IsAlive ?hash year2025 \<and>
      Value ?hash = HashValue [''f'' \<mapsto> ''x''] \<and> [''f'' \<mapsto> ''x''] ''missing'' = None"
    by (simp add: holds_def bucket_Get_def plain_def IsAlive_def IsZero_def)
  have clean: "\<forall>r\<in>set [(''k'', Some ?str)]. Decode plain (snd r) \<noteq> None"
    by (simp add: plain_def)
  from failed
  have "snd (exec plain (CallDelete ''k'') (clock_at (year2025 + 2)) [(''k'', Some ?str)])
      = [(''k'', Some ?str)]"
    using failed_operation_changes_nothing [where L = plain and b = "[(''k'', Some ?str)]"
        and cmd = "CallDelete ''k''" and c = "clock_at (year2025 + 2)" and err = KeyNotExistsError]
    by blast
  with failed
  have 1: "exec plain (CallDelete ''k'') (clock_at (year2025 + 2)) [(''k'', Some ?str)]
      = (Failed KeyNotExistsError, [(''k'', Some ?str)])"
    by (simp add: prod_eq_iff)
  from dead
  have 2: "Delete plain ''k'' (year2025 + 2) [(''k'', Some ?str)]
      = (Some KeyNotExistsError, [(''k'', Some ?str)])"
    using failed_operation_changes_nothing [where L = plain and b = "[(''k'', Some ?str)]"
        and key = "''k''" and item = ?str and now = "year2025 + 2"]
    by blast
  from hash
  have 3: "HashDelete plain ''h'' ''missing'' year2025 [(''h'', Some ?hash)]
      = (Some FieldNotExistError, [(''h'', Some ?hash)])"
    using failed_operation_changes_nothing [where L = plain and b = "[(''h'', Some ?hash)]"
        and key = "''h''" and item = ?hash and now = year2025 and h = "[''f'' \<mapsto> ''x'']"
        and field = "''missing''"]
    by blast
  from dead clean
  have 4: "bucket_Get (gc_cycle plain (\<lambda>key. year2025 + 2) [(''k'', Some ?str)]) ''k'' = None"
    using failed_operation_changes_nothing [where L = plain and b = "[(''k'', Some ?str)]"
        and key = "''k''" and item = ?str and scan = "\<lambda>key. year2025 + 2"]
    by blast
  from 1 2 3 4 show ?thesis by blast
qed

end
